theory Spec2Isabelle
  imports Main "HOL-Library.Multiset"
begin

section \<open>Data model\<close>

text \<open>
  The configuration loader of \<^verbatim>\<open>hydra/_internal/config_loader.py\<close> works on
  OmegaConf containers.  A container node is a scalar, a \<^verbatim>\<open>ListConfig\<close> or a
  \<^verbatim>\<open>DictConfig\<close>; a \<^verbatim>\<open>DictConfig\<close> keeps its keys in insertion order (an association
  list here).  Both containers carry the optional \<^verbatim>\<open>struct\<close> flag that
  \<^verbatim>\<open>OmegaConf.set_struct\<close> writes.  A defaults list is the content of a
  \<^verbatim>\<open>ListConfig\<close>: a list of nodes, each expected to be a string or a \<^verbatim>\<open>DictConfig\<close>.
\<close>

datatype scalar = PNone | PBool bool | PInt int | PStr string

datatype node =
    Scalar scalar
  | ListConfig "bool option" "node list"
  | DictConfig "bool option" "(string \<times> node) list"

text \<open>Every exception the modelled code can raise is a value of this type.\<close>

datatype error =
    AssertionError
  | StopIteration
  | ValueError
  | IndexError
  | TypeError
  | AttributeError
  | KeyError string
  | IOError
  | NotImplementedError string
  | MissingConfigException string string "string list"
  | UnsupportedListPath

subsection \<open>Python equality of nodes\<close>

text \<open>
  \<^verbatim>\<open>list.remove\<close> compares with \<^verbatim>\<open>==\<close>.  Python's \<^verbatim>\<open>True == 1\<close> holds, a
  \<^verbatim>\<open>ListConfig\<close> compares element by element, and a \<^verbatim>\<open>DictConfig\<close> compares its key
  sets and the values under each key, whatever the insertion order and the flags.
\<close>

fun scalar_eq :: "scalar \<Rightarrow> scalar \<Rightarrow> bool" where
  "scalar_eq (PBool a) (PInt b) = (b = (if a then 1 else 0))"
| "scalar_eq (PInt a) (PBool b) = (a = (if b then 1 else 0))"
| "scalar_eq a b = (a = b)"

function py_eq :: "node \<Rightarrow> node \<Rightarrow> bool" where
  "py_eq (Scalar a) (Scalar b) = scalar_eq a b"
| "py_eq (ListConfig f xs) (ListConfig g ys) = list_all2 py_eq xs ys"
| "py_eq (DictConfig f kvs) (DictConfig g kvs') =
     (length kvs = length kvs' \<and>
      (\<forall>k \<in> set (map fst kvs').
         case map_of kvs k of None \<Rightarrow> False | Some v \<Rightarrow> True) \<and>
      (\<forall>k \<in> set (map fst kvs).
         case map_of kvs k of
           None \<Rightarrow> False
         | Some v \<Rightarrow> (case map_of kvs' k of None \<Rightarrow> False | Some v' \<Rightarrow> py_eq v v')))"
| "py_eq (Scalar a) (ListConfig g ys) = False"
| "py_eq (Scalar a) (DictConfig g kvs') = False"
| "py_eq (ListConfig f xs) (Scalar b) = False"
| "py_eq (ListConfig f xs) (DictConfig g kvs') = False"
| "py_eq (DictConfig f kvs) (Scalar b) = False"
| "py_eq (DictConfig f kvs) (ListConfig g ys) = False"
  by pat_completeness auto
termination
proof (relation "measure (\<lambda>(a, b). size a)", goal_cases)
  case 1
  then show ?case by simp
next
  case (2 f xs g ys x y)
  then show ?case by (simp add: size_list_estimation' less_Suc_eq_le)
next
  case (3 f kvs g kvs' k v v')
  then have "(k, v) \<in> set kvs" by (simp add: map_of_SomeD)
  then have "size_prod (\<lambda>_. 0) size (k, v) \<le> size_list (size_prod (\<lambda>_. 0) size) kvs"
    by (rule size_list_estimation') simp
  then show ?case by simp
qed

text \<open>
  \<^verbatim>\<open>ListConfig.remove(x)\<close>: deletes the first element equal to \<^verbatim>\<open>x\<close> and raises
  \<^verbatim>\<open>ValueError\<close> when there is none.
\<close>

fun list_remove :: "node \<Rightarrow> node list \<Rightarrow> error + node list" where
  "list_remove x [] = Inl ValueError"
| "list_remove x (e # es) =
     (if py_eq e x then Inr es
      else (case list_remove x es of Inl err \<Rightarrow> Inl err | Inr es' \<Rightarrow> Inr (e # es')))"

section \<open>Merging two defaults lists\<close>

text \<open>
  \<^verbatim>\<open>ConfigLoader._merge_default_lists\<close> (the leading underscore of a private name
  is dropped).  \<^verbatim>\<open>get_key\<close> is its local function: the first key of the entry, or the
  second one when the first is \<^verbatim>\<open>optional\<close>; \<^verbatim>\<open>next\<close> on an exhausted iterator raises
  \<^verbatim>\<open>StopIteration\<close>.
\<close>

fun get_key :: "(string \<times> node) list \<Rightarrow> error + string" where
  "get_key [] = Inl StopIteration"
| "get_key ((key1, v) # rest) =
     (if key1 = ''optional''
      then (case rest of [] \<Rightarrow> Inl StopIteration | (key2, v2) # rest2 \<Rightarrow> Inr key2)
      else Inr key1)"

text \<open>
  The first loop: \<^verbatim>\<open>key_to_idx[key] = idx\<close> for every \<^verbatim>\<open>DictConfig\<close> of
  \<^verbatim>\<open>primary\<close>, a later entry of the same key overwriting an earlier one; the
  assertion admits a \<^verbatim>\<open>DictConfig\<close> or a string only.
\<close>

fun merge_key_to_idx ::
  "(string \<rightharpoonup> nat) \<Rightarrow> nat \<Rightarrow> node list \<Rightarrow> error + (string \<rightharpoonup> nat)" where
  "merge_key_to_idx key_to_idx idx [] = Inr key_to_idx"
| "merge_key_to_idx key_to_idx idx (d # ds) =
     (case d of
        DictConfig f kvs \<Rightarrow>
          (case get_key kvs of
             Inl err \<Rightarrow> Inl err
           | Inr key \<Rightarrow> merge_key_to_idx (key_to_idx(key \<mapsto> idx)) (Suc idx) ds)
      | Scalar (PStr s) \<Rightarrow> merge_key_to_idx key_to_idx (Suc idx) ds
      | _ \<Rightarrow> Inl AssertionError)"

text \<open>
  The second loop runs over a deep copy of \<^verbatim>\<open>merged_list\<close> and mutates both
  \<^verbatim>\<open>primary\<close> (assignment at the recorded index) and \<^verbatim>\<open>merged_list\<close> (removal of the
  matched entry).
\<close>

fun merge_matched ::
  "(string \<rightharpoonup> nat) \<Rightarrow> node list \<Rightarrow> node list \<Rightarrow> node list
     \<Rightarrow> error + node list \<times> node list" where
  "merge_matched key_to_idx [] primary merged_list = Inr (primary, merged_list)"
| "merge_matched key_to_idx (d # ds) primary merged_list =
     (case d of
        DictConfig f kvs \<Rightarrow>
          (case get_key kvs of
             Inl err \<Rightarrow> Inl err
           | Inr key \<Rightarrow>
               (case key_to_idx key of
                  None \<Rightarrow> merge_matched key_to_idx ds primary merged_list
                | Some idx \<Rightarrow>
                    if idx < length primary
                    then (case list_remove d merged_list of
                            Inl err \<Rightarrow> Inl err
                          | Inr ml \<Rightarrow> merge_matched key_to_idx ds (primary[idx := d]) ml)
                    else Inl IndexError))
      | _ \<Rightarrow> merge_matched key_to_idx ds primary merged_list)"

text \<open>The third loop appends what is left of \<^verbatim>\<open>merged_list\<close>.\<close>

definition merge_default_lists :: "node list \<Rightarrow> node list \<Rightarrow> error + node list" where
  "merge_default_lists primary merged_list =
     (case merge_key_to_idx Map.empty 0 primary of
        Inl err \<Rightarrow> Inl err
      | Inr key_to_idx \<Rightarrow>
          (case merge_matched key_to_idx merged_list primary merged_list of
             Inl err \<Rightarrow> Inl err
           | Inr (primary', merged_list') \<Rightarrow> Inr (primary' @ merged_list')))"

section \<open>Validation of a defaults list\<close>

text \<open>
  \<^verbatim>\<open>ConfigLoader._validate_defaults\<close>.  An attribute read \<^verbatim>\<open>default.optional\<close> of an
  entry without that key gives \<^verbatim>\<open>None\<close>; \<^verbatim>\<open>len\<close> counts the keys.
\<close>

definition validate_default :: "node \<Rightarrow> error + unit" where
  "validate_default d =
     (case d of
        DictConfig f kvs \<Rightarrow>
          if length kvs = 1 \<or> length kvs = 2
          then (if length kvs = 2
                then (case map_of kvs ''optional'' of
                        Some (Scalar (PBool b)) \<Rightarrow> Inr ()
                      | _ \<Rightarrow> Inl AssertionError)
                else (case map_of kvs ''optional'' of
                        None \<Rightarrow> Inr ()
                      | Some (Scalar PNone) \<Rightarrow> Inr ()
                      | _ \<Rightarrow> Inl AssertionError))
          else Inl AssertionError
      | Scalar (PStr s) \<Rightarrow> Inr ()
      | _ \<Rightarrow> Inl AssertionError)"

fun validate_defaults :: "node list \<Rightarrow> error + unit" where
  "validate_defaults [] = Inr ()"
| "validate_defaults (d # ds) =
     (case validate_default d of
        Inl err \<Rightarrow> Inl err
      | Inr u \<Rightarrow> validate_defaults ds)"

section \<open>The search path and the existence probes\<close>

text \<open>
  Modelled from the spec: the classes \<^verbatim>\<open>SearchPath\<close> and \<^verbatim>\<open>ConfigSearchPath\<close> of
  \<^verbatim>\<open>config_search_path.py\<close> are not among the sources.  The spec gives an entry a
  provider and a location string, and the search path is the ordered list of entries;
  the loader reads them as \<^verbatim>\<open>search_path.provider\<close> and \<^verbatim>\<open>search_path.path\<close>.
\<close>

record SearchPath =
  provider :: string
  path :: string

text \<open>
  The file system, the installed packages and the job runtime are the environment of
  the loader.  \<^verbatim>\<open>pkg_resources.resource_exists\<close> answers, or raises one of the two
  exceptions that \<^verbatim>\<open>_exists\<close> handles; \<^verbatim>\<open>OmegaConf.load\<close> gives the parsed document
  or fails; \<^verbatim>\<open>JobRuntime().get(key)\<close> gives the value the runtime holds for a key or
  fails.
\<close>

datatype probe = Found bool | RaisesImportError | RaisesNotImplementedError

record env =
  os_path_exists :: "string \<Rightarrow> bool"
  os_path_isdir :: "string \<Rightarrow> bool"
  os_listdir :: "string \<Rightarrow> string list"
  resource_exists :: "string \<Rightarrow> string \<Rightarrow> probe"
  resource_isdir :: "string \<Rightarrow> string \<Rightarrow> bool"
  resource_listdir :: "string \<Rightarrow> string \<Rightarrow> string list"
  omegaconf_load :: "string \<Rightarrow> error + node"
  resource_stream_load :: "string \<Rightarrow> string \<Rightarrow> error + node"
  job_runtime_get :: "string \<Rightarrow> error + node"

text \<open>
  The loader object: its search path, its default strict flag, and the load history
  \<^verbatim>\<open>all_config_checked\<close>, the one field that is mutated.
\<close>

record LoadTrace =
  filename :: string
  trace_path :: "string option"
  trace_provider :: "string option"

record ConfigLoader =
  config_search_path :: "SearchPath list"
  default_strict :: "bool option"
  all_config_checked :: "LoadTrace list"

text \<open>
  \<^verbatim>\<open>ConfigLoader.__init__\<close>, the one place that assigns \<^verbatim>\<open>all_config_checked\<close>.  The
  assertion on the class of the search path is a matter of types here.
\<close>

definition init :: "SearchPath list \<Rightarrow> bool option \<Rightarrow> ConfigLoader" where
  "init search_path strict =
     \<lparr>config_search_path = search_path, default_strict = strict, all_config_checked = []\<rparr>"

definition startswith :: "string \<Rightarrow> string \<Rightarrow> bool" where
  "startswith s prefix = (take (length prefix) s = prefix)"

text \<open>\<^verbatim>\<open>ConfigLoader._split_path\<close>.\<close>

definition split_path :: "string \<Rightarrow> bool \<times> string" where
  "split_path p =
     (let prefix = ''pkg://'';
          is_pkg = startswith p prefix
      in (is_pkg, if is_pkg then drop (length prefix) p else p))"

text \<open>
  \<^verbatim>\<open>ConfigLoader._split_module_and_resource\<close>: the split at the first \<^verbatim>\<open>/\<close>, and
  the resource taken as the module when the module part is empty.
\<close>

definition split_module_and_resource :: "string \<Rightarrow> string \<times> string" where
  "split_module_and_resource fname =
     (let (module_name, resource_name) =
            (if CHR ''/'' \<in> set fname
             then (takeWhile (\<lambda>c. c \<noteq> CHR ''/'') fname,
                   tl (dropWhile (\<lambda>c. c \<noteq> CHR ''/'') fname))
             else (fname, []))
      in if module_name = [] then (resource_name, []) else (module_name, resource_name))"

text \<open>\<^verbatim>\<open>ConfigLoader._exists\<close>.\<close>

definition exists_impl :: "env \<Rightarrow> bool \<Rightarrow> string \<Rightarrow> error + bool" where
  "exists_impl e is_pkg fname =
     (if is_pkg
      then (let (module_name, resource_name) = split_module_and_resource fname
            in case resource_exists e module_name resource_name of
                 Found ret \<Rightarrow> Inr ret
               | RaisesImportError \<Rightarrow> Inr False
               | RaisesNotImplementedError \<Rightarrow>
                   Inl (NotImplementedError
                          (''Unable to load '' @ module_name @ ''/'' @ resource_name
                           @ '', are you missing an __init__.py?'')))
      else Inr (os_path_exists e fname))"

text \<open>
  \<^verbatim>\<open>ConfigLoader._find_config\<close>: the loop over the search path, left at the first
  entry under which the file exists.
\<close>

fun find_config_loop :: "env \<Rightarrow> SearchPath list \<Rightarrow> string \<Rightarrow> error + SearchPath option" where
  "find_config_loop e [] filepath = Inr None"
| "find_config_loop e (search_path # rest) filepath =
     (let (is_pkg, p) = split_path (path search_path);
          config_file = p @ ''/'' @ filepath
      in case exists_impl e is_pkg config_file of
           Inl err \<Rightarrow> Inl err
         | Inr found \<Rightarrow>
             if found then Inr (Some search_path) else find_config_loop e rest filepath)"

definition find_config :: "env \<Rightarrow> ConfigLoader \<Rightarrow> string \<Rightarrow> error + SearchPath option" where
  "find_config e self filepath = find_config_loop e (config_search_path self) filepath"

definition exists_in_search_path :: "env \<Rightarrow> ConfigLoader \<Rightarrow> string \<Rightarrow> error + bool" where
  "exists_in_search_path e self filepath =
     (case find_config e self filepath of
        Inl err \<Rightarrow> Inl err
      | Inr found \<Rightarrow> Inr (found \<noteq> None))"

section \<open>Overrides and the defaults list\<close>

text \<open>
  Modelled from the spec: \<^verbatim>\<open>split_key_val\<close> of \<^verbatim>\<open>plugins/common/utils.py\<close> is not
  among the sources.  The spec makes an override a token \<^verbatim>\<open>KEY=VALUE\<close> that is split
  into key and value, and lets the value contain anything, commas included; the split
  is at the first \<^verbatim>\<open>=\<close>, and a token without one is rejected.
\<close>

definition split_key_val :: "string \<Rightarrow> error + string \<times> string" where
  "split_key_val s =
     (if CHR ''='' \<in> set s
      then Inr (takeWhile (\<lambda>c. c \<noteq> CHR ''='') s, tl (dropWhile (\<lambda>c. c \<noteq> CHR ''='') s))
      else Inl AssertionError)"

text \<open>
  Python's \<^verbatim>\<open>list.remove\<close> on a list of strings, \<^verbatim>\<open>del defaults[idx]\<close>, and the item
  assignment \<^verbatim>\<open>defaults[idx][key] = value\<close>: an index out of range raises
  \<^verbatim>\<open>IndexError\<close>, an entry that is not a \<^verbatim>\<open>DictConfig\<close> takes no item, and a
  \<^verbatim>\<open>DictConfig\<close> overwrites the value of a key it has and appends a key it has not.
\<close>

definition remove_str :: "string \<Rightarrow> string list \<Rightarrow> error + string list" where
  "remove_str x xs = (if x \<in> set xs then Inr (remove1 x xs) else Inl ValueError)"

definition del_item :: "node list \<Rightarrow> nat \<Rightarrow> error + node list" where
  "del_item xs idx =
     (if idx < length xs then Inr (take idx xs @ drop (Suc idx) xs) else Inl IndexError)"

fun dict_set :: "(string \<times> node) list \<Rightarrow> string \<Rightarrow> node \<Rightarrow> (string \<times> node) list" where
  "dict_set [] key v = [(key, v)]"
| "dict_set ((k, w) # kvs) key v =
     (if k = key then (k, v) # kvs else (k, w) # dict_set kvs key v)"

definition set_item :: "node list \<Rightarrow> nat \<Rightarrow> string \<Rightarrow> string \<Rightarrow> error + node list" where
  "set_item xs idx key val =
     (if idx < length xs
      then (case xs ! idx of
              DictConfig f kvs \<Rightarrow>
                Inr (xs[idx := DictConfig f (dict_set kvs key (Scalar (PStr val)))])
            | _ \<Rightarrow> Inl TypeError)
      else Inl IndexError)"

text \<open>
  \<^verbatim>\<open>ConfigLoader._apply_defaults_overrides\<close>.  Its first loop records, for the first
  key of every \<^verbatim>\<open>DictConfig\<close> of the defaults list, the index of the entry; the map is
  not touched again.
\<close>

fun overrides_key_to_idx ::
  "(string \<rightharpoonup> nat) \<Rightarrow> nat \<Rightarrow> node list \<Rightarrow> error + (string \<rightharpoonup> nat)" where
  "overrides_key_to_idx key_to_idx idx [] = Inr key_to_idx"
| "overrides_key_to_idx key_to_idx idx (d # ds) =
     (case d of
        DictConfig f kvs \<Rightarrow>
          (case kvs of
             [] \<Rightarrow> Inl StopIteration
           | (key, v) # rest \<Rightarrow> overrides_key_to_idx (key_to_idx(key \<mapsto> idx)) (Suc idx) ds)
      | _ \<Rightarrow> overrides_key_to_idx key_to_idx (Suc idx) ds)"

text \<open>
  One iteration of its second loop on the state \<^verbatim>\<open>(defaults, overrides, consumed)\<close>,
  and the loop over the copy of the overrides.
\<close>

definition apply_defaults_override ::
  "(string \<rightharpoonup> nat) \<Rightarrow> string \<Rightarrow> node list \<times> string list \<times> string list
     \<Rightarrow> error + node list \<times> string list \<times> string list" where
  "apply_defaults_override key_to_idx override st =
     (case st of (defaults, overrides, consumed) \<Rightarrow>
        (case split_key_val override of
           Inl err \<Rightarrow> Inl err
         | Inr (key, val0) \<Rightarrow>
             (case key_to_idx key of
                None \<Rightarrow> Inr (defaults, overrides, consumed)
              | Some idx \<Rightarrow>
                  (let val = (if CHR '','' \<in> set val0 then ''_SKIP_'' else val0)
                   in case (if val = ''null'' then del_item defaults idx
                            else set_item defaults idx key val) of
                        Inl err \<Rightarrow> Inl err
                      | Inr defaults' \<Rightarrow>
                          (case remove_str override overrides of
                             Inl err \<Rightarrow> Inl err
                           | Inr overrides' \<Rightarrow>
                               Inr (defaults', overrides', consumed @ [override]))))))"

fun apply_defaults_overrides_loop ::
  "(string \<rightharpoonup> nat) \<Rightarrow> string list \<Rightarrow> node list \<times> string list \<times> string list
     \<Rightarrow> error + node list \<times> string list \<times> string list" where
  "apply_defaults_overrides_loop key_to_idx [] st = Inr st"
| "apply_defaults_overrides_loop key_to_idx (override # rest) st =
     (case apply_defaults_override key_to_idx override st of
        Inl err \<Rightarrow> Inl err
      | Inr st' \<Rightarrow> apply_defaults_overrides_loop key_to_idx rest st')"

text \<open>
  The result is the returned list \<^verbatim>\<open>consumed\<close> together with the two arguments as the
  call leaves them.
\<close>

definition apply_defaults_overrides ::
  "string list \<Rightarrow> node list \<Rightarrow> error + string list \<times> string list \<times> node list" where
  "apply_defaults_overrides overrides defaults =
     (case overrides_key_to_idx Map.empty 0 defaults of
        Inl err \<Rightarrow> Inl err
      | Inr key_to_idx \<Rightarrow>
          (case apply_defaults_overrides_loop key_to_idx overrides (defaults, overrides, []) of
             Inl err \<Rightarrow> Inl err
           | Inr (defaults', overrides', consumed) \<Rightarrow> Inr (consumed, overrides', defaults')))"

text \<open>\<^verbatim>\<open>ConfigLoader._apply_free_defaults\<close>, in the same shape.\<close>

definition apply_free_default ::
  "env \<Rightarrow> ConfigLoader \<Rightarrow> string \<Rightarrow> node list \<times> string list \<times> string list
     \<Rightarrow> error + node list \<times> string list \<times> string list" where
  "apply_free_default e self override st =
     (case st of (defaults, overrides, consumed) \<Rightarrow>
        (case split_key_val override of
           Inl err \<Rightarrow> Inl err
         | Inr (key, val) \<Rightarrow>
             (case exists_in_search_path e self key of
                Inl err \<Rightarrow> Inl err
              | Inr found \<Rightarrow>
                  if found
                  then (let defaults' =
                              (if CHR '','' \<notin> set val
                               then defaults @ [DictConfig None [(key, Scalar (PStr val))]]
                               else defaults)
                        in case remove_str override overrides of
                             Inl err \<Rightarrow> Inl err
                           | Inr overrides' \<Rightarrow>
                               Inr (defaults', overrides', consumed @ [override]))
                  else Inr (defaults, overrides, consumed))))"

fun apply_free_defaults_loop ::
  "env \<Rightarrow> ConfigLoader \<Rightarrow> string list \<Rightarrow> node list \<times> string list \<times> string list
     \<Rightarrow> error + node list \<times> string list \<times> string list" where
  "apply_free_defaults_loop e self [] st = Inr st"
| "apply_free_defaults_loop e self (override # rest) st =
     (case apply_free_default e self override st of
        Inl err \<Rightarrow> Inl err
      | Inr st' \<Rightarrow> apply_free_defaults_loop e self rest st')"

definition apply_free_defaults ::
  "env \<Rightarrow> ConfigLoader \<Rightarrow> node list \<Rightarrow> string list
     \<Rightarrow> error + string list \<times> string list \<times> node list" where
  "apply_free_defaults e self defaults overrides =
     (case apply_free_defaults_loop e self overrides (defaults, overrides, []) of
        Inl err \<Rightarrow> Inl err
      | Inr (defaults', overrides', consumed) \<Rightarrow> Inr (consumed, overrides', defaults'))"

text \<open>
  The overrides that \<^verbatim>\<open>load_configuration\<close> applies to the merged tree:
  \<^verbatim>\<open>[x for x in overrides if x not in all_consumed]\<close>, on the list the two calls above
  have left.
\<close>

definition remaining_overrides :: "string list \<Rightarrow> string list \<Rightarrow> string list \<Rightarrow> string list" where
  "remaining_overrides consumed consumed_free_job_defaults overrides =
     (let all_consumed = consumed @ consumed_free_job_defaults
      in filter (\<lambda>x. x \<notin> set all_consumed) overrides)"

section \<open>Loading documents\<close>

text \<open>
  Three functions are taken as they come: \<^verbatim>\<open>OmegaConf.merge\<close> of two documents, the
  YAML reading of the value of an override, and \<^verbatim>\<open>get_overrides_dirname\<close> of
  \<^verbatim>\<open>plugins/common/utils.py\<close>, which is not among the sources, with its arguments
  \<^verbatim>\<open>input_list\<close>, \<^verbatim>\<open>kv_sep\<close>, \<^verbatim>\<open>item_sep\<close> and \<^verbatim>\<open>exclude_keys\<close> in this order.
  Nothing is assumed of any of them.
\<close>

record library =
  omegaconf_merge :: "node \<Rightarrow> node \<Rightarrow> node"
  yaml_load :: "string \<Rightarrow> node"
  get_overrides_dirname :: "node \<Rightarrow> node \<Rightarrow> node \<Rightarrow> node \<Rightarrow> error + node"

definition record_trace :: "ConfigLoader \<Rightarrow> LoadTrace \<Rightarrow> ConfigLoader" where
  "record_trace self t = self\<lparr>all_config_checked := all_config_checked self @ [t]\<rparr>"

text \<open>
  \<^verbatim>\<open>ConfigLoader._load_config_impl\<close>.  The result is the returned value, or the
  exception, together with the loader as the call leaves it.  The last assertion wants
  a \<^verbatim>\<open>DictConfig\<close> at the top of a loaded document.
\<close>

definition loaded_document ::
  "ConfigLoader \<Rightarrow> string \<Rightarrow> SearchPath \<Rightarrow> bool \<Rightarrow> node \<Rightarrow> (error + node option) \<times> ConfigLoader" where
  "loaded_document self input_file search_path record_load loaded_cfg =
     (let self1 =
            (if record_load
             then record_trace self
                    \<lparr>filename = input_file,
                     trace_path = Some (path search_path),
                     trace_provider = Some (provider search_path)\<rparr>
             else self)
      in case loaded_cfg of
           DictConfig f kvs \<Rightarrow> (Inr (Some loaded_cfg), self1)
         | _ \<Rightarrow> (Inl AssertionError, self1))"

definition load_config_impl ::
  "env \<Rightarrow> ConfigLoader \<Rightarrow> string \<Rightarrow> bool \<Rightarrow> (error + node option) \<times> ConfigLoader" where
  "load_config_impl e self input_file record_load =
     (case find_config e self input_file of
        Inl err \<Rightarrow> (Inl err, self)
      | Inr None \<Rightarrow>
          (Inr None,
           if record_load
           then record_trace self
                  \<lparr>filename = input_file, trace_path = None, trace_provider = None\<rparr>
           else self)
      | Inr (Some search_path) \<Rightarrow>
          (let fullpath = path search_path @ ''/'' @ input_file;
               is_pkg = startswith (path search_path) ''pkg://''
           in if is_pkg
              then (let (module_name, resource_name) =
                          split_module_and_resource (drop (length ''pkg://'') fullpath)
                    in case resource_stream_load e module_name resource_name of
                         Inl err \<Rightarrow> (Inl err, self)
                       | Inr loaded_cfg \<Rightarrow>
                           loaded_document self input_file search_path record_load loaded_cfg)
              else if os_path_exists e fullpath
              then (case omegaconf_load e fullpath of
                      Inl err \<Rightarrow> (Inl err, self)
                    | Inr loaded_cfg \<Rightarrow>
                        loaded_document self input_file search_path record_load loaded_cfg)
              else (Inl AssertionError, self)))"

text \<open>\<^verbatim>\<open>ConfigLoader.get_load_history\<close>: a copy of the history.\<close>

definition get_load_history :: "ConfigLoader \<Rightarrow> LoadTrace list" where
  "get_load_history self = all_config_checked self"

subsection \<open>The options of a group\<close>

definition endswith :: "string \<Rightarrow> string \<Rightarrow> bool" where
  "endswith s suffix = (length suffix \<le> length s \<and> drop (length s - length suffix) s = suffix)"

text \<open>\<^verbatim>\<open>os.path.join\<close> of POSIX, for two and for three components.\<close>

definition os_path_join :: "string \<Rightarrow> string \<Rightarrow> string" where
  "os_path_join a b =
     (if startswith b ''/'' then b
      else if a = [] \<or> endswith a ''/'' then a @ b
      else a @ ''/'' @ b)"

definition os_path_join3 :: "string \<Rightarrow> string \<Rightarrow> string \<Rightarrow> string" where
  "os_path_join3 a b c = os_path_join (os_path_join a b) c"

text \<open>
  \<^verbatim>\<open>ConfigLoader.get_group_options\<close>: the two inner loops over the listed names,
  the body of the outer loop for one search-path entry, and the outer loop.
\<close>

fun package_files :: "env \<Rightarrow> string \<Rightarrow> string \<Rightarrow> string \<Rightarrow> string list \<Rightarrow> string list" where
  "package_files e module_name group_name file_type [] = []"
| "package_files e module_name group_name file_type (file # all_files) =
     (if file_type = ''dir'' \<and> resource_isdir e module_name (os_path_join group_name file)
         \<and> file \<noteq> ''__pycache__''
      then [file]
      else if file_type = ''file'' \<and> endswith file ''.yaml''
      then [take (length file - length ''.yaml'') file]
      else [])
     @ package_files e module_name group_name file_type all_files"

fun directory_files :: "env \<Rightarrow> string \<Rightarrow> string \<Rightarrow> string \<Rightarrow> string list \<Rightarrow> string list" where
  "directory_files e group_path group_name file_type [] = []"
| "directory_files e group_path group_name file_type (file # all_files) =
     (if file_type = ''dir'' \<and> os_path_isdir e (os_path_join3 group_path group_name file)
         \<and> file \<noteq> ''__pycache__''
      then [file]
      else if file_type = ''file'' \<and> endswith file ''.yaml''
      then [take (length file - length ''.yaml'') file]
      else [])
     @ directory_files e group_path group_name file_type all_files"

definition group_options_under ::
  "env \<Rightarrow> SearchPath \<Rightarrow> string \<Rightarrow> string \<Rightarrow> error + string list" where
  "group_options_under e search_path group_name file_type =
     (let (is_pkg, p) = split_path (path search_path)
      in if is_pkg
         then (let (module_name, resource_name) =
                     split_module_and_resource (p @ ''/'' @ group_name)
               in case exists_impl e is_pkg p of
                    Inl err \<Rightarrow> Inl err
                  | Inr found \<Rightarrow>
                      if found \<and> resource_isdir e module_name resource_name
                      then Inr (package_files e module_name group_name file_type
                                  (resource_listdir e module_name resource_name))
                      else Inr [])
         else (let group_path = p @ ''/'' @ group_name
               in if os_path_isdir e group_path
                  then Inr (directory_files e group_path group_name file_type
                              (os_listdir e group_path))
                  else Inr []))"

fun group_options_loop ::
  "env \<Rightarrow> SearchPath list \<Rightarrow> string \<Rightarrow> string \<Rightarrow> error + string list" where
  "group_options_loop e [] group_name file_type = Inr []"
| "group_options_loop e (search_path # rest) group_name file_type =
     (case group_options_under e search_path group_name file_type of
        Inl err \<Rightarrow> Inl err
      | Inr files \<Rightarrow>
          (case group_options_loop e rest group_name file_type of
             Inl err \<Rightarrow> Inl err
           | Inr options \<Rightarrow> Inr (files @ options)))"

definition get_group_options ::
  "env \<Rightarrow> ConfigLoader \<Rightarrow> string \<Rightarrow> string \<Rightarrow> error + string list" where
  "get_group_options e self group_name file_type =
     group_options_loop e (config_search_path self) group_name file_type"

subsection \<open>Merging one document\<close>

definition newline :: string where
  "newline = [CHR 0x0A]"

definition tab :: string where
  "tab = [CHR 0x09]"

fun join :: "string \<Rightarrow> string list \<Rightarrow> string" where
  "join sep [] = []"
| "join sep [x] = x"
| "join sep (x # y # ys) = x @ sep @ join sep (y # ys)"

text \<open>
  \<^verbatim>\<open>ConfigLoader._merge_config\<close>.  The exception carries its message, the missing
  file and the options, \<^verbatim>\<open>MissingConfigException(msg, new_cfg, options)\<close>; the result
  of \<^verbatim>\<open>OmegaConf.merge\<close> is asserted to be a \<^verbatim>\<open>DictConfig\<close>.
\<close>

definition merge_config ::
  "env \<Rightarrow> library \<Rightarrow> ConfigLoader \<Rightarrow> node \<Rightarrow> string \<Rightarrow> string \<Rightarrow> bool
     \<Rightarrow> (error + node) \<times> ConfigLoader" where
  "merge_config e lib self cfg family name required =
     (let new_cfg = (if family \<noteq> [] then family @ ''/'' @ name else name)
      in case load_config_impl e self new_cfg True of
           (Inl err, self1) \<Rightarrow> (Inl err, self1)
         | (Inr None, self1) \<Rightarrow>
             if required
             then (if family = []
                   then (Inl (MissingConfigException (''Could not load '' @ new_cfg) new_cfg []),
                         self1)
                   else (case get_group_options e self1 family ''file'' of
                           Inl err \<Rightarrow> (Inl err, self1)
                         | Inr options \<Rightarrow>
                             (Inl (MissingConfigException
                                     (if options \<noteq> []
                                      then ''Could not load '' @ new_cfg
                                           @ '', available options:'' @ newline @ family
                                           @ '':'' @ newline @ tab
                                           @ join (newline @ tab) options
                                      else ''Could not load '' @ new_cfg)
                                     new_cfg options),
                              self1)))
             else (Inr cfg, self1)
         | (Inr (Some loaded_cfg), self1) \<Rightarrow>
             (case omegaconf_merge lib cfg loaded_cfg of
                DictConfig f kvs \<Rightarrow> (Inr (DictConfig f kvs), self1)
              | _ \<Rightarrow> (Inl AssertionError, self1)))"

subsection \<open>Merging the defaults\<close>

text \<open>
  \<^verbatim>\<open>os.path.splitext\<close> of POSIX gives the extension of the last path component: its
  part from the last dot on, unless only dots come before that dot.  \<^verbatim>\<open>get_filename\<close>
  is the local function of \<^verbatim>\<open>_merge_defaults\<close>.
\<close>

definition splitext_ext :: "string \<Rightarrow> string" where
  "splitext_ext p =
     (let base = rev (takeWhile (\<lambda>c. c \<noteq> CHR ''/'') (rev p))
      in if CHR ''.'' \<in> set base
         then (let ext = CHR ''.'' # rev (takeWhile (\<lambda>c. c \<noteq> CHR ''.'') (rev base));
                   stem = rev (tl (dropWhile (\<lambda>c. c \<noteq> CHR ''.'') (rev base)))
               in if list_all (\<lambda>c. c = CHR ''.'') stem then [] else ext)
         else [])"

definition get_filename :: "string \<Rightarrow> string" where
  "get_filename config_name =
     (let ext = splitext_ext config_name
      in if ext \<noteq> ''.yaml'' \<and> ext \<noteq> ''.yml'' then config_name @ ''.yaml'' else config_name)"

text \<open>Python's truth value of a node, and \<^verbatim>\<open>sub in s\<close> on strings.\<close>

definition truthy :: "node \<Rightarrow> bool" where
  "truthy n =
     (case n of
        Scalar PNone \<Rightarrow> False
      | Scalar (PBool b) \<Rightarrow> b
      | Scalar (PInt i) \<Rightarrow> i \<noteq> 0
      | Scalar (PStr s) \<Rightarrow> s \<noteq> []
      | ListConfig f xs \<Rightarrow> xs \<noteq> []
      | DictConfig f kvs \<Rightarrow> kvs \<noteq> [])"

fun contains :: "string \<Rightarrow> string \<Rightarrow> bool" where
  "contains [] sub = (sub = [])"
| "contains (c # cs) sub = (startswith (c # cs) sub \<or> contains cs sub)"

text \<open>
  The test \<^verbatim>\<open>name is not None and "_SKIP_" not in name\<close> and the call
  \<^verbatim>\<open>get_filename(name)\<close> that follows it: the file name to load, nothing when the entry
  is skipped, and \<^verbatim>\<open>TypeError\<close> when \<^verbatim>\<open>name\<close> is a number or a truth value (no
  \<^verbatim>\<open>in\<close>) or a container without the sentinel (no \<^verbatim>\<open>splitext\<close>).
\<close>

definition name_to_load :: "node \<Rightarrow> error + string option" where
  "name_to_load name =
     (case name of
        Scalar PNone \<Rightarrow> Inr None
      | Scalar (PStr s) \<Rightarrow> Inr (if contains s ''_SKIP_'' then None else Some (get_filename s))
      | Scalar (PBool b) \<Rightarrow> Inl TypeError
      | Scalar (PInt i) \<Rightarrow> Inl TypeError
      | ListConfig f xs \<Rightarrow>
          if list_ex (\<lambda>x. py_eq x (Scalar (PStr ''_SKIP_''))) xs then Inr None
          else Inl TypeError
      | DictConfig f kvs \<Rightarrow>
          if ''_SKIP_'' \<in> set (map fst kvs) then Inr None else Inl TypeError)"

text \<open>
  \<^verbatim>\<open>merge_defaults\<close>, the local function of \<^verbatim>\<open>_merge_defaults\<close>: one entry, and the
  loop.  The entries it reads are copies, so the deletion of \<^verbatim>\<open>optional\<close> stays local.
\<close>

definition merge_default ::
  "env \<Rightarrow> library \<Rightarrow> ConfigLoader \<Rightarrow> node \<Rightarrow> node \<Rightarrow> (error + node) \<times> ConfigLoader" where
  "merge_default e lib self merged_cfg default1 =
     (case default1 of
        DictConfig f kvs \<Rightarrow>
          (let has_optional =
                 (case map_of kvs ''optional'' of
                    None \<Rightarrow> False | Some v \<Rightarrow> v \<noteq> Scalar PNone);
               is_optional =
                 (case map_of kvs ''optional'' of
                    None \<Rightarrow> False | Some v \<Rightarrow> if v \<noteq> Scalar PNone then truthy v else False);
               kvs1 = (if has_optional then filter (\<lambda>kv. fst kv \<noteq> ''optional'') kvs else kvs)
           in case kvs1 of
                [] \<Rightarrow> (Inl StopIteration, self)
              | (family, name) # rest \<Rightarrow>
                  (case name_to_load name of
                     Inl err \<Rightarrow> (Inl err, self)
                   | Inr None \<Rightarrow> (Inr merged_cfg, self)
                   | Inr (Some fname) \<Rightarrow>
                       merge_config e lib self merged_cfg family fname (\<not> is_optional)))
      | Scalar (PStr s) \<Rightarrow>
          if contains s ''_SKIP_'' then (Inr merged_cfg, self)
          else merge_config e lib self merged_cfg [] (get_filename s) True
      | _ \<Rightarrow> (Inl AssertionError, self))"

fun merge_defaults ::
  "env \<Rightarrow> library \<Rightarrow> ConfigLoader \<Rightarrow> node \<Rightarrow> node list \<Rightarrow> (error + node) \<times> ConfigLoader" where
  "merge_defaults e lib self merged_cfg [] = (Inr merged_cfg, self)"
| "merge_defaults e lib self merged_cfg (default1 # def_list) =
     (case merge_default e lib self merged_cfg default1 of
        (Inl err, self1) \<Rightarrow> (Inl err, self1)
      | (Inr merged_cfg1, self1) \<Rightarrow> merge_defaults e lib self1 merged_cfg1 def_list)"

text \<open>
  \<^verbatim>\<open>ConfigLoader._merge_defaults\<close>: the first \<^verbatim>\<open>split_at\<close> entries make the system
  list, the others the user list; the key \<^verbatim>\<open>defaults\<close> is deleted from the result.
\<close>

definition merge_defaults_impl ::
  "env \<Rightarrow> library \<Rightarrow> ConfigLoader \<Rightarrow> node \<Rightarrow> node list \<Rightarrow> nat \<Rightarrow> (error + node) \<times> ConfigLoader" where
  "merge_defaults_impl e lib self cfg defaults split_at =
     (let system_list = take split_at defaults;
          user_list = drop split_at defaults
      in case merge_defaults e lib self cfg system_list of
           (Inl err, self1) \<Rightarrow> (Inl err, self1)
         | (Inr cfg1, self1) \<Rightarrow>
             (case merge_defaults e lib self1 cfg1 user_list of
                (Inl err, self2) \<Rightarrow> (Inl err, self2)
              | (Inr cfg2, self2) \<Rightarrow>
                  (case cfg2 of
                     DictConfig f kvs \<Rightarrow>
                       (Inr (DictConfig f (filter (\<lambda>kv. fst kv \<noteq> ''defaults'') kvs)), self2)
                   | _ \<Rightarrow> (Inr cfg2, self2))))"

section \<open>Documents as trees\<close>

text \<open>
  Modelled from the spec: the document type is OmegaConf's, outside the repository.
  The spec gives a document a strict flag per subtree that rejects unknown keys, and a
  dotted-path set.  A node without a flag of its own takes the one of its parent; a set
  through a key that holds no container puts an empty map there first, which the
  strict flag rejects for a key that the map does not have.  A path through a list is
  not modelled and is reported as \<^verbatim>\<open>UnsupportedListPath\<close>.
\<close>

definition set_struct :: "node \<Rightarrow> bool option \<Rightarrow> error + node" where
  "set_struct conf flag =
     (case conf of
        DictConfig f kvs \<Rightarrow> Inr (DictConfig flag kvs)
      | ListConfig f xs \<Rightarrow> Inr (ListConfig flag xs)
      | Scalar s \<Rightarrow> Inl AttributeError)"

definition is_struct :: "bool option \<Rightarrow> bool \<Rightarrow> bool" where
  "is_struct flag inherited = (case flag of None \<Rightarrow> inherited | Some b \<Rightarrow> b)"

fun split_on :: "char \<Rightarrow> string \<Rightarrow> string list" where
  "split_on c [] = [[]]"
| "split_on c (x # xs) =
     (if x = c then [] # split_on c xs
      else (case split_on c xs of [] \<Rightarrow> [[x]] | w # ws \<Rightarrow> (x # w) # ws))"

fun update_path :: "bool \<Rightarrow> node \<Rightarrow> string list \<Rightarrow> node \<Rightarrow> error + node" where
  "update_path inherited (DictConfig f kvs) [k] v =
     (if is_struct f inherited \<and> k \<notin> set (map fst kvs) then Inl (KeyError k)
      else Inr (DictConfig f (dict_set kvs k v)))"
| "update_path inherited (DictConfig f kvs) (k # k2 # ks) v =
     (case (case map_of kvs k of
              Some (DictConfig g c) \<Rightarrow> Inr (DictConfig g c)
            | Some (ListConfig g xs) \<Rightarrow> Inr (ListConfig g xs)
            | _ \<Rightarrow>
                if is_struct f inherited \<and> k \<notin> set (map fst kvs) then Inl (KeyError k)
                else Inr (DictConfig None [])) of
        Inl err \<Rightarrow> Inl err
      | Inr next_root \<Rightarrow>
          (case update_path (is_struct f inherited) next_root (k2 # ks) v of
             Inl err \<Rightarrow> Inl err
           | Inr child \<Rightarrow> Inr (DictConfig f (dict_set kvs k child))))"
| "update_path inherited (DictConfig f kvs) [] v = Inl ValueError"
| "update_path inherited (ListConfig f xs) ks v = Inl UnsupportedListPath"
| "update_path inherited (Scalar s) ks v = Inl AssertionError"

text \<open>
  \<^verbatim>\<open>cfg.merge_with_dotlist(dotlist)\<close>: every item is split at its first \<^verbatim>\<open>=\<close>, the
  value is read as YAML, and the key is set as a dotted path from the root.
\<close>

definition dotlist_update :: "library \<Rightarrow> node \<Rightarrow> string \<Rightarrow> error + node" where
  "dotlist_update lib conf arg =
     (let key = takeWhile (\<lambda>c. c \<noteq> CHR ''='') arg;
          v = (if CHR ''='' \<in> set arg
               then yaml_load lib (tl (dropWhile (\<lambda>c. c \<noteq> CHR ''='') arg))
               else Scalar PNone)
      in update_path False conf (split_on CHR ''.'' key) v)"

fun merge_with_dotlist :: "library \<Rightarrow> node \<Rightarrow> string list \<Rightarrow> error + node" where
  "merge_with_dotlist lib conf [] = Inr conf"
| "merge_with_dotlist lib conf (arg # dotlist) =
     (case dotlist_update lib conf arg of
        Inl err \<Rightarrow> Inl err
      | Inr conf1 \<Rightarrow> merge_with_dotlist lib conf1 dotlist)"

text \<open>
  The read of a chain of attributes \<^verbatim>\<open>cfg.a.b\<close> and the assignment
  \<^verbatim>\<open>cfg.a.b = v\<close>.  A map that is strict raises for a key it has not; a map that is
  not strict reads \<^verbatim>\<open>None\<close> for such a key and takes it on an assignment; \<^verbatim>\<open>None\<close>
  and the other scalars have no attributes.
\<close>

fun select_path :: "bool \<Rightarrow> node \<Rightarrow> string list \<Rightarrow> error + node" where
  "select_path inherited n [] = Inr n"
| "select_path inherited (DictConfig f kvs) (k # ks) =
     (case map_of kvs k of
        Some c \<Rightarrow> select_path (is_struct f inherited) c ks
      | None \<Rightarrow>
          if is_struct f inherited then Inl (KeyError k)
          else select_path False (Scalar PNone) ks)"
| "select_path inherited (ListConfig f xs) (k # ks) = Inl UnsupportedListPath"
| "select_path inherited (Scalar a) (k # ks) = Inl AttributeError"

fun assign_path :: "bool \<Rightarrow> node \<Rightarrow> string list \<Rightarrow> node \<Rightarrow> error + node" where
  "assign_path inherited (DictConfig f kvs) [k] v =
     (if is_struct f inherited \<and> k \<notin> set (map fst kvs) then Inl (KeyError k)
      else Inr (DictConfig f (dict_set kvs k v)))"
| "assign_path inherited (DictConfig f kvs) (k # k2 # ks) v =
     (case map_of kvs k of
        None \<Rightarrow> if is_struct f inherited then Inl (KeyError k) else Inl AttributeError
      | Some c \<Rightarrow>
          (case assign_path (is_struct f inherited) c (k2 # ks) v of
             Inl err \<Rightarrow> Inl err
           | Inr child \<Rightarrow> Inr (DictConfig f (dict_set kvs k child))))"
| "assign_path inherited (DictConfig f kvs) [] v = Inl ValueError"
| "assign_path inherited (ListConfig f xs) ks v = Inl UnsupportedListPath"
| "assign_path inherited (Scalar a) ks v = Inl AttributeError"

text \<open>
  \<^verbatim>\<open>OmegaConf.set_struct(cfg.a.b, flag)\<close>, and the flag a node carries itself, which
  \<^verbatim>\<open>open_dict\<close> keeps while its body runs and gives back at the end.
\<close>

fun set_struct_at :: "bool \<Rightarrow> node \<Rightarrow> string list \<Rightarrow> bool option \<Rightarrow> error + node" where
  "set_struct_at inherited n [] flag = set_struct n flag"
| "set_struct_at inherited (DictConfig f kvs) (k # ks) flag =
     (case map_of kvs k of
        None \<Rightarrow> if is_struct f inherited then Inl (KeyError k) else Inl AttributeError
      | Some c \<Rightarrow>
          (case set_struct_at (is_struct f inherited) c ks flag of
             Inl err \<Rightarrow> Inl err
           | Inr child \<Rightarrow> Inr (DictConfig f (dict_set kvs k child))))"
| "set_struct_at inherited (ListConfig f xs) (k # ks) flag = Inl UnsupportedListPath"
| "set_struct_at inherited (Scalar a) (k # ks) flag = Inl AttributeError"

definition flag_of :: "node \<Rightarrow> bool option" where
  "flag_of n = (case n of Scalar a \<Rightarrow> None | ListConfig f xs \<Rightarrow> f | DictConfig f kvs \<Rightarrow> f)"

text \<open>The test \<^verbatim>\<open>key in node\<close>.\<close>

definition has_key :: "node \<Rightarrow> string \<Rightarrow> bool" where
  "has_key n key =
     (case n of
        DictConfig f kvs \<Rightarrow> key \<in> set (map fst kvs)
      | ListConfig f xs \<Rightarrow> list_ex (py_eq (Scalar (PStr key))) xs
      | Scalar a \<Rightarrow> False)"

section \<open>Loading a configuration\<close>

text \<open>
  Python's iteration over a node, as \<^verbatim>\<open>_validate_defaults\<close> meets it when
  \<^verbatim>\<open>cfg.defaults\<close> is not a list: a string gives its characters, a \<^verbatim>\<open>DictConfig\<close> its
  keys, a number or a truth value is not iterable.
\<close>

definition iterate :: "node \<Rightarrow> error + node list" where
  "iterate n =
     (case n of
        ListConfig f xs \<Rightarrow> Inr xs
      | DictConfig f kvs \<Rightarrow> Inr (map (\<lambda>kv. Scalar (PStr (fst kv))) kvs)
      | Scalar (PStr s) \<Rightarrow> Inr (map (\<lambda>c. Scalar (PStr [c])) s)
      | Scalar _ \<Rightarrow> Inl TypeError)"

text \<open>
  The attribute read \<^verbatim>\<open>cfg.key\<close> of a \<^verbatim>\<open>DictConfig\<close> that is not strict: the value,
  and \<^verbatim>\<open>None\<close> for a key it has not.
\<close>

definition attribute :: "node \<Rightarrow> string \<Rightarrow> node" where
  "attribute conf key =
     (case conf of
        DictConfig f kvs \<Rightarrow> (case map_of kvs key of None \<Rightarrow> Scalar PNone | Some v \<Rightarrow> v)
      | _ \<Rightarrow> Scalar PNone)"

text \<open>\<^verbatim>\<open>ConfigLoader._create_cfg\<close>.\<close>

definition create_cfg ::
  "env \<Rightarrow> ConfigLoader \<Rightarrow> string option \<Rightarrow> bool \<Rightarrow> (error + node) \<times> ConfigLoader" where
  "create_cfg e self cfg_filename record_load =
     (case (case cfg_filename of
              None \<Rightarrow> (Inr (DictConfig None []), self)
            | Some fname \<Rightarrow>
                (case load_config_impl e self fname record_load of
                   (Inl err, self1) \<Rightarrow> (Inl err, self1)
                 | (Inr None, self1) \<Rightarrow> (Inl AssertionError, self1)
                 | (Inr (Some ret), self1) \<Rightarrow> (Inr ret, self1))) of
        (Inl err, self1) \<Rightarrow> (Inl err, self1)
      | (Inr conf, self1) \<Rightarrow>
          if attribute conf ''defaults'' \<noteq> Scalar PNone
          then (case iterate (attribute conf ''defaults'') of
                  Inl err \<Rightarrow> (Inl err, self1)
                | Inr items \<Rightarrow>
                    (case validate_defaults items of
                       Inl err \<Rightarrow> (Inl err, self1)
                     | Inr u \<Rightarrow> (Inr conf, self1)))
          else (Inr conf, self1))"

text \<open>
  \<^verbatim>\<open>ConfigLoader._get_defaults\<close>: \<^verbatim>\<open>cfg.defaults or OmegaConf.create([])\<close>, which
  must be a list.
\<close>

definition get_defaults :: "node \<Rightarrow> error + node list" where
  "get_defaults conf =
     (if truthy (attribute conf ''defaults'')
      then (case attribute conf ''defaults'' of
              ListConfig f xs \<Rightarrow> Inr xs
            | _ \<Rightarrow> Inl ValueError)
      else Inr [])"

text \<open>
  The list that \<^verbatim>\<open>_get_defaults\<close> returns for a document with a non-empty list is the
  list of the document itself, so what \<^verbatim>\<open>load_configuration\<close> does to the list is
  done to the document too.
\<close>

definition with_defaults :: "node \<Rightarrow> node list \<Rightarrow> node" where
  "with_defaults conf defaults =
     (case conf of
        DictConfig f kvs \<Rightarrow>
          (case map_of kvs ''defaults'' of
             Some (ListConfig g xs) \<Rightarrow>
               if xs \<noteq> [] then DictConfig f (dict_set kvs ''defaults'' (ListConfig g defaults))
               else conf
           | _ \<Rightarrow> conf)
      | _ \<Rightarrow> conf)"

definition is_hydra :: "string \<Rightarrow> bool" where
  "is_hydra x = (startswith x ''hydra.'' \<or> startswith x ''hydra/'')"

text \<open>
  The two calls that engage strictness: \<^verbatim>\<open>OmegaConf.set_struct(cfg.hydra, True)\<close>
  and \<^verbatim>\<open>OmegaConf.set_struct(cfg, strict)\<close>.
\<close>

definition engage_strict :: "node \<Rightarrow> bool option \<Rightarrow> error + node" where
  "engage_strict conf strict =
     (case set_struct (attribute conf ''hydra'') (Some True) of
        Inl err \<Rightarrow> Inl err
      | Inr hydra_node \<Rightarrow>
          (case conf of
             DictConfig f kvs \<Rightarrow>
               set_struct (DictConfig f (dict_set kvs ''hydra'' hydra_node)) strict
           | _ \<Rightarrow> Inl AttributeError))"

text \<open>
  \<^verbatim>\<open>load_configuration\<close> in four parts: the check of the primary file and the two
  documents; the defaults list and the overrides that are consumed by it; the merge,
  the strict flags and the overrides that remain; the bookkeeping written under
  \<^verbatim>\<open>cfg.hydra\<close>.
\<close>

definition search_path_message :: "ConfigLoader \<Rightarrow> string \<Rightarrow> string" where
  "search_path_message self config_file =
     ''Cannot find primary config file: '' @ config_file @ newline @ ''Search path:''
     @ newline
     @ join newline
         (map (\<lambda>x. tab @ path x @ '' (from '' @ provider x @ '')'') (config_search_path self))"

definition load_documents ::
  "env \<Rightarrow> ConfigLoader \<Rightarrow> string option \<Rightarrow> (error + node \<times> node) \<times> ConfigLoader" where
  "load_documents e self config_file =
     (case (case config_file of
              None \<Rightarrow> Inr True
            | Some fname \<Rightarrow> exists_in_search_path e self fname) of
        Inl err \<Rightarrow> (Inl err, self)
      | Inr found \<Rightarrow>
          if \<not> found
          then (Inl (MissingConfigException
                       (search_path_message self (case config_file of None \<Rightarrow> [] | Some f \<Rightarrow> f))
                       (case config_file of None \<Rightarrow> [] | Some f \<Rightarrow> f) []),
                self)
          else (case create_cfg e self (Some ''hydra.yaml'') True of
                  (Inl err, self1) \<Rightarrow> (Inl err, self1)
                | (Inr hydra_cfg, self1) \<Rightarrow>
                    (case create_cfg e self1 config_file False of
                       (Inl err, self2) \<Rightarrow> (Inl err, self2)
                     | (Inr job_cfg, self2) \<Rightarrow> (Inr (hydra_cfg, job_cfg), self2))))"

definition compose_defaults ::
  "env \<Rightarrow> ConfigLoader \<Rightarrow> node \<Rightarrow> node \<Rightarrow> string option \<Rightarrow> string list
     \<Rightarrow> error + nat \<times> node list \<times> string list \<times> string list \<times> string list" where
  "compose_defaults e self hydra_cfg job_cfg config_file overrides =
     (case get_defaults hydra_cfg of
        Inl err \<Rightarrow> Inl err
      | Inr defaults0 \<Rightarrow>
          (let defaults1 =
                 (case config_file of
                    None \<Rightarrow> defaults0 | Some fname \<Rightarrow> defaults0 @ [Scalar (PStr fname)]);
               split_at = length defaults1
           in case get_defaults job_cfg of
                Inl err \<Rightarrow> Inl err
              | Inr job_defaults \<Rightarrow>
                  (case merge_default_lists defaults1 job_defaults of
                     Inl err \<Rightarrow> Inl err
                   | Inr defaults2 \<Rightarrow>
                       (case apply_defaults_overrides overrides defaults2 of
                          Inl err \<Rightarrow> Inl err
                        | Inr (consumed, overrides1, defaults3) \<Rightarrow>
                            (case apply_free_defaults e self defaults3 overrides1 of
                               Inl err \<Rightarrow> Inl err
                             | Inr (consumed_free_job_defaults, overrides2, defaults4) \<Rightarrow>
                                 (case validate_defaults defaults4 of
                                    Inl err \<Rightarrow> Inl err
                                  | Inr u \<Rightarrow>
                                      Inr (split_at, defaults4, consumed,
                                           consumed_free_job_defaults, overrides2)))))))"

text \<open>
  The assignments to \<^verbatim>\<open>cfg.hydra.overrides.task\<close> and \<^verbatim>\<open>cfg.hydra.overrides.hydra\<close>.
\<close>

definition strings :: "string list \<Rightarrow> node" where
  "strings xs = ListConfig None (map (\<lambda>x. Scalar (PStr x)) xs)"

definition write_overrides :: "node \<Rightarrow> string list \<Rightarrow> error + node" where
  "write_overrides cfg remaining =
     (case assign_path False cfg [''hydra'', ''overrides'', ''task'']
             (strings (filter (\<lambda>x. \<not> is_hydra x) remaining)) of
        Inl err \<Rightarrow> Inl err
      | Inr cfg1 \<Rightarrow>
          assign_path False cfg1 [''hydra'', ''overrides'', ''hydra'']
            (strings (filter is_hydra remaining)))"

text \<open>The body of \<^verbatim>\<open>with open_dict(cfg.hydra.job)\<close>.\<close>

definition write_job :: "env \<Rightarrow> library \<Rightarrow> node \<Rightarrow> string option \<Rightarrow> error + node" where
  "write_job e lib cfg config_file =
     (case select_path False cfg [''hydra'', ''job''] of
        Inl err \<Rightarrow> Inl err
      | Inr job \<Rightarrow>
          (case (if \<not> has_key job ''name''
                 then (case job_runtime_get e ''name'' of
                         Inl err \<Rightarrow> Inl err
                       | Inr name \<Rightarrow> assign_path False cfg [''hydra'', ''job'', ''name''] name)
                 else Inr cfg) of
             Inl err \<Rightarrow> Inl err
           | Inr cfg1 \<Rightarrow>
               (case select_path False cfg1 [''hydra'', ''overrides'', ''task''] of
                  Inl err \<Rightarrow> Inl err
                | Inr input_list \<Rightarrow>
               (case select_path False cfg1
                       [''hydra'', ''job'', ''config'', ''override_dirname'', ''kv_sep''] of
                  Inl err \<Rightarrow> Inl err
                | Inr kv_sep \<Rightarrow>
               (case select_path False cfg1
                       [''hydra'', ''job'', ''config'', ''override_dirname'', ''item_sep''] of
                  Inl err \<Rightarrow> Inl err
                | Inr item_sep \<Rightarrow>
               (case select_path False cfg1
                       [''hydra'', ''job'', ''config'', ''override_dirname'', ''exclude_keys''] of
                  Inl err \<Rightarrow> Inl err
                | Inr exclude_keys \<Rightarrow>
               (case get_overrides_dirname lib input_list kv_sep item_sep exclude_keys of
                  Inl err \<Rightarrow> Inl err
                | Inr dirname \<Rightarrow>
               (case assign_path False cfg1 [''hydra'', ''job'', ''override_dirname''] dirname of
                  Inl err \<Rightarrow> Inl err
                | Inr cfg2 \<Rightarrow>
                    assign_path False cfg2 [''hydra'', ''job'', ''config_file'']
                      (case config_file of
                         None \<Rightarrow> Scalar PNone
                       | Some fname \<Rightarrow> Scalar (PStr fname))))))))))"

text \<open>
  \<^verbatim>\<open>with open_dict(cfg.hydra.job)\<close>: the node is made not strict for the body and
  takes its own flag back when the body has returned.
\<close>

definition write_job_opened ::
  "env \<Rightarrow> library \<Rightarrow> node \<Rightarrow> string option \<Rightarrow> error + node" where
  "write_job_opened e lib cfg config_file =
     (case select_path False cfg [''hydra'', ''job''] of
        Inl err \<Rightarrow> Inl err
      | Inr job \<Rightarrow>
          (case set_struct_at False cfg [''hydra'', ''job''] (Some False) of
             Inl err \<Rightarrow> Inl err
           | Inr opened \<Rightarrow>
               (case write_job e lib opened config_file of
                  Inl err \<Rightarrow> Inl err
                | Inr written \<Rightarrow>
                    set_struct_at False written [''hydra'', ''job''] (flag_of job))))"

definition load_configuration ::
  "env \<Rightarrow> library \<Rightarrow> ConfigLoader \<Rightarrow> string option \<Rightarrow> string list \<Rightarrow> bool option
     \<Rightarrow> (error + node) \<times> ConfigLoader" where
  "load_configuration e lib self config_file overrides strict0 =
     (let strict = (case strict0 of None \<Rightarrow> default_strict self | Some b \<Rightarrow> Some b)
      in case load_documents e self config_file of
           (Inl err, self1) \<Rightarrow> (Inl err, self1)
         | (Inr (hydra_cfg, job_cfg), self1) \<Rightarrow>
             (case compose_defaults e self1 hydra_cfg job_cfg config_file overrides of
                Inl err \<Rightarrow> (Inl err, self1)
              | Inr (split_at, defaults, consumed, consumed_free_job_defaults, overrides2) \<Rightarrow>
                  (case merge_defaults_impl e lib self1 (with_defaults hydra_cfg defaults)
                          defaults split_at of
                     (Inl err, self2) \<Rightarrow> (Inl err, self2)
                   | (Inr cfg1, self2) \<Rightarrow>
                       (case engage_strict cfg1 strict of
                          Inl err \<Rightarrow> (Inl err, self2)
                        | Inr cfg2 \<Rightarrow>
                            (let remaining_overrides =
                                   remaining_overrides consumed consumed_free_job_defaults
                                     overrides2;
                                 remaining = consumed @ consumed_free_job_defaults
                                             @ remaining_overrides
                             in case merge_with_dotlist lib cfg2 remaining_overrides of
                                  Inl err \<Rightarrow> (Inl err, self2)
                                | Inr cfg3 \<Rightarrow>
                                    (case write_overrides cfg3 remaining of
                                       Inl err \<Rightarrow> (Inl err, self2)
                                     | Inr cfg4 \<Rightarrow>
                                         (write_job_opened e lib cfg4 config_file,
                                          self2)))))))"

section \<open>Notions used to state the properties\<close>

text \<open>
  The group of a defaults entry as \<^verbatim>\<open>get_key\<close> reads it, and the two kinds of
  entries the merge accepts in \<^verbatim>\<open>primary\<close>.
\<close>

definition group_of :: "node \<Rightarrow> string option" where
  "group_of d =
     (case d of
        DictConfig f kvs \<Rightarrow> (case get_key kvs of Inl err \<Rightarrow> None | Inr key \<Rightarrow> Some key)
      | _ \<Rightarrow> None)"

definition bare_string :: "node \<Rightarrow> bool" where
  "bare_string d = (case d of Scalar (PStr s) \<Rightarrow> True | _ \<Rightarrow> False)"

text \<open>The index of the last entry of a group in a list, when there is one.\<close>

fun last_idx :: "string \<Rightarrow> node list \<Rightarrow> nat option" where
  "last_idx g [] = None"
| "last_idx g (p # ps) =
     (case last_idx g ps of
        Some i \<Rightarrow> Some (Suc i)
      | None \<Rightarrow> if group_of p = Some g then Some 0 else None)"

definition last_idx_map :: "node list \<Rightarrow> string \<rightharpoonup> nat" where
  "last_idx_map primary =
     (\<lambda>g. case last_idx g primary of Some i \<Rightarrow> Some (0 + i) | None \<Rightarrow> None)"

text \<open>One iteration of the second loop, seen from \<^verbatim>\<open>primary\<close> alone.\<close>

definition upd :: "(string \<rightharpoonup> nat) \<Rightarrow> node \<Rightarrow> node list \<Rightarrow> node list" where
  "upd kti d p =
     (case group_of d of
        None \<Rightarrow> p
      | Some g \<Rightarrow> (case kti g of None \<Rightarrow> p | Some i \<Rightarrow> p[i := d]))"

definition matched :: "(string \<rightharpoonup> nat) \<Rightarrow> node \<Rightarrow> bool" where
  "matched kti d = (case group_of d of None \<Rightarrow> False | Some g \<Rightarrow> kti g \<noteq> None)"

text \<open>
  What the merge computes, stated without the index map: an entry of \<^verbatim>\<open>primary\<close>
  that is the last one of its group is replaced by the last entry of that group in
  \<^verbatim>\<open>secondary\<close>, when there is one; every other entry of \<^verbatim>\<open>primary\<close> stays.  The
  entries of \<^verbatim>\<open>secondary\<close> whose group does not occur in \<^verbatim>\<open>primary\<close>, and those
  without a group, follow in their order.
\<close>

definition last_binding :: "string \<Rightarrow> node list \<Rightarrow> node option" where
  "last_binding g ds = find (\<lambda>d. group_of d = Some g) (rev ds)"

fun replace_last :: "node list \<Rightarrow> node list \<Rightarrow> node list" where
  "replace_last [] secondary = []"
| "replace_last (p # ps) secondary =
     (case group_of p of
        None \<Rightarrow> p
      | Some g \<Rightarrow>
          if list_ex (\<lambda>q. group_of q = Some g) ps then p
          else (case last_binding g secondary of None \<Rightarrow> p | Some d \<Rightarrow> d))
     # replace_last ps secondary"

definition unmatched :: "node list \<Rightarrow> node \<Rightarrow> bool" where
  "unmatched primary d =
     (case group_of d of
        None \<Rightarrow> True
      | Some g \<Rightarrow> \<not> list_ex (\<lambda>q. group_of q = Some g) primary)"

text \<open>Entries used in the examples.\<close>

definition str :: "string \<Rightarrow> node" where
  "str s = Scalar (PStr s)"

definition binding :: "string \<Rightarrow> string \<Rightarrow> node" where
  "binding g c = DictConfig None [(g, str c)]"

definition optional_binding :: "string \<Rightarrow> string \<Rightarrow> node" where
  "optional_binding g c = DictConfig None [(g, str c), (''optional'', Scalar (PBool True))]"

section \<open>An example installation\<close>

text \<open>
  The examples run on a search path of three entries: the package \<^verbatim>\<open>hydra.conf\<close> that
  holds \<^verbatim>\<open>hydra.yaml\<close>, the directory \<^verbatim>\<open>conf\<close> of the application and the directory
  \<^verbatim>\<open>extra\<close> of a plugin.  \<^verbatim>\<open>model/a.yaml\<close> exists under both directories.
  \<^verbatim>\<open>hydra.yaml\<close> holds the keys that \<^verbatim>\<open>load_configuration\<close> writes and reads under
  \<^verbatim>\<open>hydra\<close>, the job name left to the runtime.  The library merges two maps key by
  key, the right one winning, reads every value as a string, and joins the overrides
  with the item separator for the name of the directory.
\<close>

definition example_search_path :: "SearchPath list" where
  "example_search_path =
     [\<lparr>provider = ''hydra'', path = ''pkg://hydra.conf''\<rparr>,
      \<lparr>provider = ''main'', path = ''conf''\<rparr>,
      \<lparr>provider = ''plugin'', path = ''extra''\<rparr>]"

definition example_hydra_yaml :: node where
  "example_hydra_yaml =
     DictConfig None
       [(''hydra'',
         DictConfig None
           [(''verbose'', Scalar (PBool False)),
            (''overrides'',
             DictConfig None [(''hydra'', ListConfig None []), (''task'', ListConfig None [])]),
            (''job'',
             DictConfig None
               [(''config'',
                 DictConfig None
                   [(''override_dirname'',
                     DictConfig None
                       [(''kv_sep'', str ''=''), (''item_sep'', str '',''),
                        (''exclude_keys'', ListConfig None [])])])])])]"

definition example_files :: "(string \<times> node) list" where
  "example_files =
     [(''conf/config.yaml'',
       DictConfig None
         [(''defaults'', ListConfig None [DictConfig None [(''model'', Scalar (PStr ''a''))]]),
          (''foo'', Scalar (PInt 1))]),
      (''conf/opt.yaml'',
       DictConfig None
         [(''defaults'',
           ListConfig None
             [DictConfig None
                [(''optional'', Scalar (PBool True)), (''model'', Scalar (PStr ''a''))]])]),
      (''conf/model/a.yaml'', DictConfig None [(''layers'', Scalar (PInt 2))]),
      (''conf/model/b.yaml'', DictConfig None [(''layers'', Scalar (PInt 5))]),
      (''extra/model/a.yaml'', DictConfig None [(''layers'', Scalar (PInt 99))])]"

definition example_dirs :: "string list" where
  "example_dirs = [''conf'', ''conf/model'', ''conf/db'', ''extra'', ''extra/model'']"

definition example_env :: env where
  "example_env =
     \<lparr>os_path_exists = (\<lambda>p. p \<in> set (map fst example_files) \<or> p \<in> set example_dirs),
      os_path_isdir = (\<lambda>p. p \<in> set example_dirs),
      os_listdir = (\<lambda>p. if p = ''conf/model'' then [''a.yaml'', ''b.yaml''] else []),
      resource_exists =
        (\<lambda>m r. if m = ''hydra.conf'' then Found (r = ''hydra.yaml'') else RaisesImportError),
      resource_isdir = (\<lambda>m r. False),
      resource_listdir = (\<lambda>m r. []),
      omegaconf_load =
        (\<lambda>p. case map_of example_files p of None \<Rightarrow> Inl IOError | Some d \<Rightarrow> Inr d),
      resource_stream_load =
        (\<lambda>m r. if m = ''hydra.conf'' \<and> r = ''hydra.yaml'' then Inr example_hydra_yaml
               else Inl IOError),
      job_runtime_get = (\<lambda>key. if key = ''name'' then Inr (str ''app'') else Inl (KeyError key))\<rparr>"

definition example_merge :: "node \<Rightarrow> node \<Rightarrow> node" where
  "example_merge a b =
     (case a of
        DictConfig f kvs \<Rightarrow>
          (case b of
             DictConfig g kvs' \<Rightarrow> DictConfig f (fold (\<lambda>kv acc. dict_set acc (fst kv) (snd kv)) kvs' kvs)
           | _ \<Rightarrow> b)
      | _ \<Rightarrow> b)"

definition example_overrides_dirname :: "node \<Rightarrow> node \<Rightarrow> node \<Rightarrow> node \<Rightarrow> error + node" where
  "example_overrides_dirname input_list kv_sep item_sep exclude_keys =
     (case (input_list, item_sep) of
        (ListConfig f xs, Scalar (PStr sep)) \<Rightarrow>
          Inr (str (join sep (concat (map (\<lambda>x. case x of Scalar (PStr s) \<Rightarrow> [s] | _ \<Rightarrow> []) xs))))
      | _ \<Rightarrow> Inl TypeError)"

definition example_library :: library where
  "example_library =
     \<lparr>omegaconf_merge = example_merge, yaml_load = (\<lambda>s. Scalar (PStr s)),
      get_overrides_dirname = example_overrides_dirname\<rparr>"

definition example_loader :: ConfigLoader where
  "example_loader = init example_search_path None"

text \<open>The example loader after it has loaded \<^verbatim>\<open>config.yaml\<close> once, without overrides.\<close>

definition example_loader_used :: ConfigLoader where
  "example_loader_used =
     snd (load_configuration example_env example_library example_loader
            (Some ''config.yaml'') [] None)"

text \<open>
  An override of the group-rewrite phase is one whose key is in the index map; an
  override of the free-defaults phase is one whose key exists in the search path.
\<close>

definition group_override :: "(string \<rightharpoonup> nat) \<Rightarrow> string \<Rightarrow> bool" where
  "group_override kti x =
     (case split_key_val x of Inl err \<Rightarrow> False | Inr (key, v) \<Rightarrow> kti key \<noteq> None)"

definition free_override :: "env \<Rightarrow> ConfigLoader \<Rightarrow> string \<Rightarrow> bool" where
  "free_override e self x =
     (case split_key_val x of
        Inl err \<Rightarrow> False
      | Inr (key, v) \<Rightarrow> exists_in_search_path e self key = Inr True)"

text \<open>
  The existence probe of \<^verbatim>\<open>_find_config\<close> for one search-path entry, and the read
  of \<^verbatim>\<open>_load_config_impl\<close> from the location of one entry.
\<close>

definition probe_under :: "env \<Rightarrow> SearchPath \<Rightarrow> string \<Rightarrow> error + bool" where
  "probe_under e search_path fname =
     (let (is_pkg, p) = split_path (path search_path)
      in exists_impl e is_pkg (p @ ''/'' @ fname))"

definition read_under :: "env \<Rightarrow> SearchPath \<Rightarrow> string \<Rightarrow> error + node" where
  "read_under e search_path fname =
     (if startswith (path search_path) ''pkg://''
      then (let (module_name, resource_name) =
                  split_module_and_resource
                    (drop (length ''pkg://'') (path search_path) @ ''/'' @ fname)
            in resource_stream_load e module_name resource_name)
      else omegaconf_load e (path search_path @ ''/'' @ fname))"

text \<open>The name of the document of a defaults entry, as \<^verbatim>\<open>_merge_config\<close> forms it.\<close>

definition document_name :: "string \<Rightarrow> string \<Rightarrow> string" where
  "document_name family name = (if family \<noteq> [] then family @ ''/'' @ name else name)"

definition miss :: "string \<Rightarrow> LoadTrace" where
  "miss fname = \<lparr>filename = fname, trace_path = None, trace_provider = None\<rparr>"

definition hit :: "string \<Rightarrow> SearchPath \<Rightarrow> LoadTrace" where
  "hit fname search_path =
     \<lparr>filename = fname, trace_path = Some (path search_path),
      trace_provider = Some (provider search_path)\<rparr>"

text \<open>A loader with some records put in front of its load history.\<close>

definition prepend :: "LoadTrace list \<Rightarrow> ConfigLoader \<Rightarrow> ConfigLoader" where
  "prepend t self = self\<lparr>all_config_checked := t @ all_config_checked self\<rparr>"

text \<open>
  A tree whose flags are all unset or all equal to one value, and a tree without any
  flag, as a document read from a file is.
\<close>

fun uniformly :: "bool \<Rightarrow> node \<Rightarrow> bool" where
  "uniformly s (Scalar a) = True"
| "uniformly s (ListConfig f xs) = ((f = None \<or> f = Some s) \<and> list_all (uniformly s) xs)"
| "uniformly s (DictConfig f kvs) =
     ((f = None \<or> f = Some s) \<and> list_all (uniformly s) (map snd kvs))"

definition unflagged :: "node \<Rightarrow> bool" where
  "unflagged n = (uniformly True n \<and> uniformly False n)"

text \<open>
  The first key of a dotted path that the tree does not have: the key looked up in a
  map that lacks it, or the key that follows a key that holds a scalar.  There is none
  when the whole path is in the tree, and none is given when the path runs into a list.
\<close>

fun first_absent :: "node \<Rightarrow> string list \<Rightarrow> string option" where
  "first_absent (DictConfig f kvs) [k] =
     (case map_of kvs k of None \<Rightarrow> Some k | Some c \<Rightarrow> None)"
| "first_absent (DictConfig f kvs) (k # k2 # ks) =
     (case map_of kvs k of
        None \<Rightarrow> Some k
      | Some (DictConfig g c) \<Rightarrow> first_absent (DictConfig g c) (k2 # ks)
      | Some (ListConfig g xs) \<Rightarrow> None
      | Some (Scalar a) \<Rightarrow> Some k2)"
| "first_absent n ks = None"

fun lookup_path :: "node \<Rightarrow> string list \<Rightarrow> node option" where
  "lookup_path n [] = Some n"
| "lookup_path (DictConfig f kvs) (k # ks) =
     (case map_of kvs k of None \<Rightarrow> None | Some c \<Rightarrow> lookup_path c ks)"
| "lookup_path n (k # ks) = None"

text \<open>The path and the value of an override, as \<^verbatim>\<open>merge_with_dotlist\<close> reads them.\<close>

definition override_path :: "string \<Rightarrow> string list" where
  "override_path arg = split_on CHR ''.'' (takeWhile (\<lambda>c. c \<noteq> CHR ''='') arg)"

definition override_value :: "library \<Rightarrow> string \<Rightarrow> node" where
  "override_value lib arg =
     (if CHR ''='' \<in> set arg
      then yaml_load lib (tl (dropWhile (\<lambda>c. c \<noteq> CHR ''='') arg))
      else Scalar PNone)"







section \<open>Properties of the defaults-list merge\<close>

lemma py_eq_refl: "py_eq x x"
proof (induction x)
  case (Scalar a)
  then show ?case by (cases a) auto
next
  case (ListConfig f xs)
  then show ?case by (simp add: list_all2_same)
next
  case (DictConfig f kvs)
  have "\<And>k v. map_of kvs k = Some v \<Longrightarrow> py_eq v v"
  proof -
    fix k v assume "map_of kvs k = Some v"
    then have "(k, v) \<in> set kvs" by (rule map_of_SomeD)
    then show "py_eq v v" using DictConfig.IH by (fastforce)
  qed
  moreover have "\<And>k. k \<in> fst ` set kvs \<Longrightarrow> map_of kvs k \<noteq> None"
    by (simp add: map_of_eq_None_iff)
  ultimately show ?case by (auto split: option.splits)
qed

lemma py_eq_dict_left: "py_eq y (DictConfig f kvs) \<Longrightarrow> \<exists>g kvs'. y = DictConfig g kvs'"
  by (cases y) auto

lemma list_remove_skip:
  assumes "\<forall>y \<in> set ys. \<not> py_eq y d"
  shows "list_remove d (ys @ d # ds) = Inr (ys @ ds)"
  using assms by (induction ys) (auto simp: py_eq_refl)

lemma kti_ok:
  assumes "\<forall>d \<in> set ds. bare_string d \<or> group_of d \<noteq> None"
  shows "merge_key_to_idx m n ds =
           Inr (\<lambda>g. case last_idx g ds of Some i \<Rightarrow> Some (n + i) | None \<Rightarrow> m g)"
  using assms
proof (induction ds arbitrary: m n)
  case Nil
  then show ?case by simp
next
  case (Cons d ds)
  then show ?case
    by (cases d) (auto simp: bare_string_def group_of_def fun_eq_iff
                   split: scalar.splits sum.splits option.splits)
qed

lemma last_idx_bound: "last_idx g ds = Some i \<Longrightarrow> i < length ds"
  by (induction ds arbitrary: i) (auto split: option.splits if_splits)

lemma last_idx_group: "last_idx g ds = Some i \<Longrightarrow> group_of (ds ! i) = Some g"
  by (induction ds arbitrary: i) (auto split: option.splits if_splits)

lemma last_idx_None: "last_idx g ds = None \<longleftrightarrow> (\<forall>d \<in> set ds. group_of d \<noteq> Some g)"
  by (induction ds) (auto split: option.splits if_splits)

lemma find_append_if:
  "find P (xs @ ys) = (case find P xs of Some x \<Rightarrow> Some x | None \<Rightarrow> find P ys)"
  by (induction xs) auto

lemma upd_hit: "group_of d = Some g \<Longrightarrow> kti g = Some i \<Longrightarrow> upd kti d p = p[i := d]"
  by (simp add: upd_def)

lemma find_rev_group:
  "find (\<lambda>d. group_of d = Some g) (rev ds) = map_option ((!) ds) (last_idx g ds)"
  by (induction ds) (auto simp: find_append_if split: option.splits)

lemma nth_fold_upd:
  "i < length p \<Longrightarrow>
   fold (upd kti) ds p ! i =
     (case find (\<lambda>d. case group_of d of None \<Rightarrow> False | Some g \<Rightarrow> kti g = Some i) (rev ds) of
        Some d \<Rightarrow> d | None \<Rightarrow> p ! i)"
proof (induction ds arbitrary: p)
  case Nil
  then show ?case by simp
next
  case (Cons d ds)
  have len: "i < length (upd kti d p)"
    using Cons.prems by (simp add: upd_def split: option.splits)
  show ?case
    using Cons.IH [OF len] Cons.prems
    by (auto simp: find_append_if upd_def nth_list_update split: option.splits)
qed

lemma length_fold_upd: "length (fold (upd kti) ds p) = length p"
  by (induction ds arbitrary: p) (auto simp: upd_def split: option.splits)

lemma merge_matched_ok:
  assumes "\<forall>d \<in> set ds. (\<forall>f kvs. d = DictConfig f kvs \<longrightarrow> group_of d \<noteq> None)"
    and "\<forall>g i. kti g = Some i \<longrightarrow> i < length primary"
    and "\<forall>y \<in> set ys. \<forall>d \<in> set ds. matched kti d \<longrightarrow> \<not> py_eq y d"
    and "\<forall>e \<in> set ds. \<forall>d \<in> set ds. matched kti d \<and> \<not> matched kti e \<longrightarrow> \<not> py_eq e d"
  shows "merge_matched kti ds primary (ys @ ds) =
           Inr (fold (upd kti) ds primary, ys @ filter (\<lambda>d. \<not> matched kti d) ds)"
  using assms
proof (induction ds arbitrary: primary ys)
  case Nil
  then show ?case by simp
next
  case (Cons d ds)
  show ?case
  proof (cases "matched kti d")
    case True
    then obtain g i where g: "group_of d = Some g" and i: "kti g = Some i"
      by (auto simp: matched_def split: option.splits)
    from g obtain f kvs where d: "d = DictConfig f kvs" and k: "get_key kvs = Inr g"
      by (auto simp: group_of_def split: node.splits sum.splits)
    have il: "i < length primary" using Cons.prems(2) i by blast
    have "\<forall>y \<in> set ys. \<not> py_eq y d" using Cons.prems(3) True by simp
    then have rm: "list_remove d (ys @ d # ds) = Inr (ys @ ds)" by (rule list_remove_skip)
    have IH: "merge_matched kti ds (primary[i := d]) (ys @ ds) =
           Inr (fold (upd kti) ds (primary[i := d]), ys @ filter (\<lambda>d. \<not> matched kti d) ds)"
      using Cons.prems by (intro Cons.IH) auto
    show ?thesis
      using True g i il rm IH d k upd_hit [of d g kti i primary] by simp
  next
    case False
    have IH: "merge_matched kti ds primary ((ys @ [d]) @ ds) =
           Inr (fold (upd kti) ds primary, (ys @ [d]) @ filter (\<lambda>d. \<not> matched kti d) ds)"
      using Cons.prems False by (intro Cons.IH) auto
    have u: "upd kti d primary = primary"
      using False by (auto simp: upd_def matched_def split: option.splits)
    show ?thesis
    proof (cases d)
      case (DictConfig f kvs)
      then obtain g where g: "group_of d = Some g" using Cons.prems(1) by auto
      then have k: "get_key kvs = Inr g" using DictConfig
        by (auto simp: group_of_def split: sum.splits)
      have "kti g = None" using False g by (simp add: matched_def)
      then show ?thesis using IH u False DictConfig k by simp
    qed (use IH u False in simp_all)
  qed
qed

lemma length_replace_last: "length (replace_last ps secondary) = length ps"
  by (induction ps) auto

lemma list_ex_last_idx: "list_ex (\<lambda>q. group_of q = Some g) ps \<longleftrightarrow> last_idx g ps \<noteq> None"
  by (simp add: last_idx_None list_ex_iff)

lemma nth_replace_last:
  "i < length ps \<Longrightarrow>
   replace_last ps secondary ! i =
     (case group_of (ps ! i) of
        None \<Rightarrow> ps ! i
      | Some g \<Rightarrow>
          if last_idx g ps = Some i
          then (case last_binding g secondary of None \<Rightarrow> ps ! i | Some d \<Rightarrow> d)
          else ps ! i)"
proof (induction ps arbitrary: i)
  case Nil
  then show ?case by simp
next
  case (Cons p ps)
  show ?case
  proof (cases i)
    case 0
    then show ?thesis
      by (auto simp: list_ex_last_idx split: option.splits)
  next
    case (Suc j)
    then have "j < length ps" using Cons.prems by simp
    from Cons.IH [OF this] Suc show ?thesis
      by (auto split: option.splits)
  qed
qed

lemma last_idx_map_eq [simp]: "last_idx_map primary g = last_idx g primary"
  by (simp add: last_idx_map_def split: option.splits)

lemma find_hit_cong:
  assumes "\<And>x. x \<in> set xs \<Longrightarrow> P x = Q x"
  shows "find P xs = find Q xs"
  using assms by (induction xs) auto

lemma fold_upd_replace_last:
  "fold (upd (last_idx_map primary)) secondary primary = replace_last primary secondary"
proof (rule nth_equalityI)
  show "length (fold (upd (last_idx_map primary)) secondary primary)
          = length (replace_last primary secondary)"
    by (simp add: length_fold_upd length_replace_last)
next
  fix i
  assume "i < length (fold (upd (last_idx_map primary)) secondary primary)"
  then have i: "i < length primary" by (simp add: length_fold_upd)
  let ?Q = "\<lambda>d. case group_of d of None \<Rightarrow> False | Some g \<Rightarrow> last_idx_map primary g = Some i"
  have lhs: "fold (upd (last_idx_map primary)) secondary primary ! i =
               (case find ?Q (rev secondary) of Some d \<Rightarrow> d | None \<Rightarrow> primary ! i)"
    using i by (rule nth_fold_upd)
  show "fold (upd (last_idx_map primary)) secondary primary ! i = replace_last primary secondary ! i"
  proof (cases "group_of (primary ! i)")
    case None
    have "\<And>d. \<not> ?Q d"
      using None last_idx_group by (fastforce split: option.splits)
    then have "find ?Q (rev secondary) = None" by (simp add: find_None_iff)
    then show ?thesis using lhs None i by (simp add: nth_replace_last)
  next
    case (Some g)
    show ?thesis
    proof (cases "last_idx g primary = Some i")
      case True
      have "\<And>d. ?Q d = (group_of d = Some g)"
      proof -
        fix d show "?Q d = (group_of d = Some g)"
        proof (cases "group_of d")
          case None then show ?thesis by simp
        next
          case (Some g')
          then show ?thesis using True \<open>group_of (primary ! i) = Some g\<close> last_idx_group [of g' primary i]
            by auto
        qed
      qed
      then have "find ?Q (rev secondary) = last_binding g secondary"
        unfolding last_binding_def by (intro find_hit_cong) simp
      then show ?thesis using lhs Some True i by (simp add: nth_replace_last)
    next
      case False
      have "\<And>d. \<not> ?Q d"
      proof -
        fix d show "\<not> ?Q d"
        proof (cases "group_of d")
          case None then show ?thesis by simp
        next
          case (Some g')
          then show ?thesis using False \<open>group_of (primary ! i) = Some g\<close> last_idx_group [of g' primary i]
            by auto
        qed
      qed
      then have "find ?Q (rev secondary) = None" by (simp add: find_None_iff)
      then show ?thesis using lhs Some False i by (simp add: nth_replace_last)
    qed
  qed
qed

lemma matched_last_idx_map:
  "matched (last_idx_map primary) d = (\<not> unmatched primary d)"
  by (auto simp: matched_def unmatched_def list_ex_last_idx split: option.splits)

lemma merge_default_lists_general:
  assumes p: "\<forall>d \<in> set primary. bare_string d \<or> group_of d \<noteq> None"
    and s: "\<forall>d \<in> set secondary. (\<forall>f kvs. d = DictConfig f kvs \<longrightarrow> group_of d \<noteq> None)"
    and e: "\<forall>e \<in> set secondary. \<forall>d \<in> set secondary.
              \<not> unmatched primary d \<and> unmatched primary e \<longrightarrow> \<not> py_eq e d"
  shows "merge_default_lists primary secondary =
           Inr (replace_last primary secondary @ filter (unmatched primary) secondary)"
proof -
  have k: "merge_key_to_idx Map.empty 0 primary = Inr (last_idx_map primary)"
    using kti_ok [OF p, of Map.empty 0] by (simp add: last_idx_map_def)
  have b: "\<forall>g i. last_idx_map primary g = Some i \<longrightarrow> i < length primary"
    by (simp add: last_idx_bound)
  have "merge_matched (last_idx_map primary) secondary primary ([] @ secondary) =
          Inr (fold (upd (last_idx_map primary)) secondary primary,
               [] @ filter (\<lambda>d. \<not> matched (last_idx_map primary) d) secondary)"
    using s b e by (intro merge_matched_ok) (simp_all add: matched_last_idx_map)
  then show ?thesis
    using k by (simp add: merge_default_lists_def fold_upd_replace_last matched_last_idx_map)
qed

lemma replace_last_self:
  "replace_last primary primary = primary"
proof (rule nth_equalityI)
  show "length (replace_last primary primary) = length primary"
    by (simp add: length_replace_last)
next
  fix i assume "i < length (replace_last primary primary)"
  then have i: "i < length primary" by (simp add: length_replace_last)
  show "replace_last primary primary ! i = primary ! i"
    using i by (auto simp: nth_replace_last last_binding_def find_rev_group split: option.splits)
qed

lemma merge_self:
  assumes p: "\<forall>d \<in> set primary. bare_string d \<or> group_of d \<noteq> None"
  shows "merge_default_lists primary primary = Inr (primary @ filter bare_string primary)"
proof -
  have u: "\<And>d. d \<in> set primary \<Longrightarrow> unmatched primary d = bare_string d"
    using p by (auto simp: unmatched_def list_ex_iff bare_string_def group_of_def
                 split: option.splits node.splits scalar.splits)
  have "merge_default_lists primary primary =
           Inr (replace_last primary primary @ filter (unmatched primary) primary)"
  proof (rule merge_default_lists_general [OF p])
    show "\<forall>d \<in> set primary. (\<forall>f kvs. d = DictConfig f kvs \<longrightarrow> group_of d \<noteq> None)"
      using p by (auto simp: bare_string_def)
    show "\<forall>e \<in> set primary. \<forall>d \<in> set primary.
              \<not> unmatched primary d \<and> unmatched primary e \<longrightarrow> \<not> py_eq e d"
      using u by (auto simp: bare_string_def group_of_def split: node.splits scalar.splits)
  qed
  moreover have "filter (unmatched primary) primary = filter bare_string primary"
    using u by (intro filter_cong) auto
  ultimately show ?thesis by (simp add: replace_last_self)
qed

lemma merge_empty:
  assumes p: "\<forall>d \<in> set primary. bare_string d \<or> group_of d \<noteq> None"
  shows "merge_default_lists primary [] = Inr primary"
  using kti_ok [OF p, of Map.empty 0] by (simp add: merge_default_lists_def)

lemma validate_defaults_all:
  "validate_defaults ds = Inr () \<longleftrightarrow> (\<forall>d \<in> set ds. validate_default d = Inr ())"
  by (induction ds) (auto split: sum.splits)

lemma valid_py_eq_group:
  assumes "validate_default (DictConfig f kvs) = Inr ()"
    and "validate_default (DictConfig f' kvs') = Inr ()"
    and "py_eq (DictConfig f' kvs') (DictConfig f kvs)"
    and "get_key kvs = Inr g" and "get_key kvs' = Inr g'"
  shows "g = g'"
proof -
  consider (one) a x where "kvs = [(a, x)]" | (two) a x b y where "kvs = [(a, x), (b, y)]"
    using assms(1) by (cases kvs; cases "tl kvs"; cases "tl (tl kvs)")
       (auto simp: validate_default_def split: if_splits)
  then show ?thesis
  proof cases
    case one
    then obtain a' x' where "kvs' = [(a', x')]"
      using assms(3) by (cases kvs'; cases "tl kvs'") auto
    then show ?thesis using one assms(3,4,5) by (auto split: if_splits option.splits)
  next
    case two
    then obtain a' x' b' y' where k': "kvs' = [(a', x'), (b', y')]"
      using assms(3) by (cases kvs'; cases "tl kvs'"; cases "tl (tl kvs')") auto
    have o: "a = ''optional'' \<or> b = ''optional''"
      using two assms(1) by (auto simp: validate_default_def split: if_splits option.splits)
    have o': "a' = ''optional'' \<or> b' = ''optional''"
      using k' assms(2) by (auto simp: validate_default_def split: if_splits option.splits)
    have sub: "a' \<in> {a, b}" "b' \<in> {a, b}" "a \<in> {a', b'}" "b \<in> {a', b'}"
      using two k' assms(3) by (auto split: if_splits option.splits)
    show ?thesis using two k' assms(4,5) o o' sub by (auto split: if_splits)
  qed
qed

lemma keyed_dict:
  assumes "\<forall>d \<in> set ds. bare_string d \<or> group_of d \<noteq> None"
    and "DictConfig f kvs \<in> set ds"
  shows "group_of (DictConfig f kvs) \<noteq> None"
proof -
  have "bare_string (DictConfig f kvs) \<or> group_of (DictConfig f kvs) \<noteq> None"
    using assms by blast
  then show ?thesis by (simp add: bare_string_def)
qed

lemma merge_default_lists_validated:
  assumes vp: "validate_defaults primary = Inr ()"
    and vs: "validate_defaults secondary = Inr ()"
    and g: "\<forall>d \<in> set (primary @ secondary). bare_string d \<or> group_of d \<noteq> None"
  shows "merge_default_lists primary secondary =
           Inr (replace_last primary secondary @ filter (unmatched primary) secondary)"
proof (rule merge_default_lists_general)
  show "\<forall>d \<in> set primary. bare_string d \<or> group_of d \<noteq> None"
    using g by simp
  show "\<forall>d \<in> set secondary. \<forall>f kvs. d = DictConfig f kvs \<longrightarrow> group_of d \<noteq> None"
    using keyed_dict [OF g] by auto
  show "\<forall>e \<in> set secondary. \<forall>d \<in> set secondary.
          \<not> unmatched primary d \<and> unmatched primary e \<longrightarrow> \<not> py_eq e d"
  proof (intro ballI impI notI)
    fix e d
    assume e: "e \<in> set secondary" and d: "d \<in> set secondary"
      and m: "\<not> unmatched primary d \<and> unmatched primary e" and eq: "py_eq e d"
    from m obtain gd where gd: "group_of d = Some gd"
      by (auto simp: unmatched_def split: option.splits)
    then obtain f kvs where dd: "d = DictConfig f kvs" and kd: "get_key kvs = Inr gd"
      by (auto simp: group_of_def split: node.splits sum.splits)
    from eq dd obtain f' kvs' where ee: "e = DictConfig f' kvs'"
      using py_eq_dict_left by blast
    then have "group_of e \<noteq> None" using keyed_dict [OF g] e by auto
    then obtain ge where ge: "group_of e = Some ge" by auto
    then have ke: "get_key kvs' = Inr ge" using ee
      by (auto simp: group_of_def split: sum.splits)
    have "validate_default (DictConfig f kvs) = Inr ()"
      using vs d dd by (simp add: validate_defaults_all)
    moreover have "validate_default (DictConfig f' kvs') = Inr ()"
      using vs e ee by (simp add: validate_defaults_all)
    ultimately have "gd = ge"
      using eq dd ee kd ke by (intro valid_py_eq_group [of f kvs f' kvs']) auto
    then show False using m gd ge by (simp add: unmatched_def)
  qed
qed

section \<open>The claims about the defaults-list merge\<close>

text \<open>
  Claim C2, as the code has it.  The spec lets the merge replace the choice of the
  first entry of the group and keep that entry's other fields.  The code assigns the
  whole secondary entry (\<^verbatim>\<open>primary[idx] = d\<close>), so an \<^verbatim>\<open>optional\<close> flag of the primary
  entry is lost, and \<^verbatim>\<open>key_to_idx\<close> keeps the index of the last entry of a group, so
  the last occurrence is the one replaced.  Both lists are the validated lists the
  loader passes, with a group key in every map entry and the secondary list an
  independent copy.
\<close>

theorem merge_default_lists_replaces_last_entry:
  assumes "validate_defaults primary = Inr ()"
    and "validate_defaults secondary = Inr ()"
    and "\<forall>d \<in> set (primary @ secondary). bare_string d \<or> group_of d \<noteq> None"
  shows "merge_default_lists primary secondary =
           Inr (replace_last primary secondary @ filter (unmatched primary) secondary)"
  using assms by (rule merge_default_lists_validated)

theorem merge_default_lists_replaces_last_entry_witness:
  "validate_defaults [optional_binding ''model'' ''a'', binding ''model'' ''z'', str ''config'']
     = Inr ()
   \<and> validate_defaults [binding ''model'' ''b'', binding ''data'' ''d'', str ''extra'']
     = Inr ()
   \<and> list_all (\<lambda>d. bare_string d \<or> group_of d \<noteq> None)
        ([optional_binding ''model'' ''a'', binding ''model'' ''z'', str ''config'']
         @ [binding ''model'' ''b'', binding ''data'' ''d'', str ''extra''])
   \<and> merge_default_lists
        [optional_binding ''model'' ''a'', binding ''model'' ''z'', str ''config'']
        [binding ''model'' ''b'', binding ''data'' ''d'', str ''extra'']
     = Inr [optional_binding ''model'' ''a'', binding ''model'' ''b'', str ''config'',
            binding ''data'' ''d'', str ''extra'']"
proof -
  let ?p = "[optional_binding ''model'' ''a'', binding ''model'' ''z'', str ''config'']"
  let ?s = "[binding ''model'' ''b'', binding ''data'' ''d'', str ''extra'']"
  have h1: "validate_defaults ?p = Inr ()"
    by (simp add: validate_default_def optional_binding_def binding_def str_def)
  have h2: "validate_defaults ?s = Inr ()"
    by (simp add: validate_default_def optional_binding_def binding_def str_def)
  have h3: "\<forall>d \<in> set (?p @ ?s). bare_string d \<or> group_of d \<noteq> None"
    by (simp add: bare_string_def group_of_def optional_binding_def binding_def str_def)
  have "replace_last ?p ?s @ filter (unmatched ?p) ?s
          = [optional_binding ''model'' ''a'', binding ''model'' ''b'', str ''config'',
             binding ''data'' ''d'', str ''extra'']"
    by (simp add: unmatched_def last_binding_def group_of_def optional_binding_def
          binding_def str_def)
  then show ?thesis
    using h1 h2 h3 merge_default_lists_replaces_last_entry [OF h1 h2 h3]
    by (simp add: list_all_iff)
qed

text \<open>
  Claim C2 as the spec words it fails twice.  Merging \<^verbatim>\<open>[{model: b}]\<close> into
  \<^verbatim>\<open>[{model: a, optional: true}]\<close> gives \<^verbatim>\<open>[{model: b}]\<close>: the optional flag is not
  kept.  Merging \<^verbatim>\<open>[{model: b}]\<close> into \<^verbatim>\<open>[{model: a}, {model: z}]\<close> replaces the second
  entry, not the first.
\<close>

theorem merge_default_lists_first_entry_counterexample:
  "merge_default_lists [optional_binding ''model'' ''a''] [binding ''model'' ''b'']
     = Inr [binding ''model'' ''b'']
   \<and> merge_default_lists [optional_binding ''model'' ''a''] [binding ''model'' ''b'']
     \<noteq> Inr [optional_binding ''model'' ''b'']
   \<and> merge_default_lists [binding ''model'' ''a'', binding ''model'' ''z'']
        [binding ''model'' ''b'']
     = Inr [binding ''model'' ''a'', binding ''model'' ''b'']
   \<and> merge_default_lists [binding ''model'' ''a'', binding ''model'' ''z'']
        [binding ''model'' ''b'']
     \<noteq> Inr [binding ''model'' ''b'', binding ''model'' ''z'']"
  by (simp add: merge_default_lists_def optional_binding_def binding_def str_def)

text \<open>
  Claim C3, as the code has it.  On a primary list the merge accepts (bare strings and
  maps with a group key), an empty secondary list changes nothing.  Merging a copy of
  the list into it leaves every map entry in place, and appends every bare string a
  second time, a bare string having no key to match: the list is unchanged exactly
  when it has no bare string.
\<close>

theorem merge_default_lists_identities:
  assumes "\<forall>d \<in> set primary. bare_string d \<or> group_of d \<noteq> None"
  shows "merge_default_lists primary [] = Inr primary
         \<and> merge_default_lists primary primary = Inr (primary @ filter bare_string primary)"
  using assms by (simp add: merge_empty merge_self)

theorem merge_default_lists_identities_witness:
  "list_all (\<lambda>d. bare_string d \<or> group_of d \<noteq> None)
     [binding ''model'' ''a'', optional_binding ''data'' ''d'']
   \<and> merge_default_lists [binding ''model'' ''a'', optional_binding ''data'' ''d''] []
     = Inr [binding ''model'' ''a'', optional_binding ''data'' ''d'']
   \<and> merge_default_lists [binding ''model'' ''a'', optional_binding ''data'' ''d'']
        [binding ''model'' ''a'', optional_binding ''data'' ''d'']
     = Inr [binding ''model'' ''a'', optional_binding ''data'' ''d'']"
proof -
  let ?p = "[binding ''model'' ''a'', optional_binding ''data'' ''d'']"
  have h: "\<forall>d \<in> set ?p. bare_string d \<or> group_of d \<noteq> None"
    by (simp add: bare_string_def group_of_def optional_binding_def binding_def str_def)
  have "filter bare_string ?p = []"
    by (simp add: bare_string_def optional_binding_def binding_def str_def)
  then show ?thesis
    using h merge_default_lists_identities [OF h] by (simp add: list_all_iff)
qed

text \<open>
  Claim C3 as the spec words it fails on a list with a bare string: merging
  \<^verbatim>\<open>[{model: a}, config]\<close> into itself gives \<^verbatim>\<open>[{model: a}, config, config]\<close>.
\<close>

theorem merge_default_lists_self_counterexample:
  "merge_default_lists [binding ''model'' ''a'', str ''config'']
     [binding ''model'' ''a'', str ''config'']
     = Inr [binding ''model'' ''a'', str ''config'', str ''config'']
   \<and> merge_default_lists [binding ''model'' ''a'', str ''config'']
     [binding ''model'' ''a'', str ''config'']
     \<noteq> Inr [binding ''model'' ''a'', str ''config'']"
  by (simp add: merge_default_lists_def binding_def str_def)

section \<open>Properties of the classification of overrides\<close>

lemma remove_str_skip:
  "x \<notin> set ys \<Longrightarrow> remove_str x (ys @ x # cs) = Inr (ys @ cs)"
  by (simp add: remove_str_def remove1_append)

lemma apply_defaults_overrides_loop_lists:
  assumes "apply_defaults_overrides_loop kti cs (ds, ys @ cs, c) = Inr (ds', ov', c')"
    and "\<forall>y \<in> set ys. \<not> group_override kti y"
  shows "ov' = ys @ filter (\<lambda>x. \<not> group_override kti x) cs \<and> c' = c @ filter (group_override kti) cs"
  using assms
proof (induction cs arbitrary: ds ys c)
  case Nil
  then show ?case by simp
next
  case (Cons x cs)
  from Cons.prems(1) obtain st where
    st: "apply_defaults_override kti x (ds, ys @ x # cs, c) = Inr st"
    and rest: "apply_defaults_overrides_loop kti cs st = Inr (ds', ov', c')"
    by (auto split: sum.splits)
  show ?case
  proof (cases "group_override kti x")
    case True
    then have "x \<notin> set ys" using Cons.prems(2) by auto
    then have rm: "remove_str x (ys @ x # cs) = Inr (ys @ cs)" by (rule remove_str_skip)
    from st True rm obtain ds1 where "st = (ds1, ys @ cs, c @ [x])"
      by (auto simp: apply_defaults_override_def group_override_def Let_def
               split: sum.splits option.splits if_splits)
    with rest have "apply_defaults_overrides_loop kti cs (ds1, ys @ cs, c @ [x]) = Inr (ds', ov', c')"
      by simp
    from Cons.IH [OF this Cons.prems(2)] True show ?thesis by simp
  next
    case False
    with st have "st = (ds, ys @ x # cs, c)"
      by (auto simp: apply_defaults_override_def group_override_def Let_def
               split: sum.splits option.splits if_splits)
    with rest have "apply_defaults_overrides_loop kti cs (ds, (ys @ [x]) @ cs, c) = Inr (ds', ov', c')"
      by simp
    moreover have "\<forall>y \<in> set (ys @ [x]). \<not> group_override kti y"
      using Cons.prems(2) False by simp
    ultimately show ?thesis using Cons.IH [of ds "ys @ [x]" c] False by simp
  qed
qed

lemma apply_free_defaults_loop_lists:
  assumes "apply_free_defaults_loop e self cs (ds, ys @ cs, c) = Inr (ds', ov', c')"
    and "\<forall>y \<in> set ys. \<not> free_override e self y"
  shows "ov' = ys @ filter (\<lambda>x. \<not> free_override e self x) cs
         \<and> c' = c @ filter (free_override e self) cs"
  using assms
proof (induction cs arbitrary: ds ys c)
  case Nil
  then show ?case by simp
next
  case (Cons x cs)
  from Cons.prems(1) obtain st where
    st: "apply_free_default e self x (ds, ys @ x # cs, c) = Inr st"
    and rest: "apply_free_defaults_loop e self cs st = Inr (ds', ov', c')"
    by (auto split: sum.splits)
  show ?case
  proof (cases "free_override e self x")
    case True
    then have "x \<notin> set ys" using Cons.prems(2) by auto
    then have rm: "remove_str x (ys @ x # cs) = Inr (ys @ cs)" by (rule remove_str_skip)
    from st True rm obtain ds1 where "st = (ds1, ys @ cs, c @ [x])"
      by (auto simp: apply_free_default_def free_override_def Let_def
               split: sum.splits option.splits if_splits)
    with rest have "apply_free_defaults_loop e self cs (ds1, ys @ cs, c @ [x]) = Inr (ds', ov', c')"
      by simp
    from Cons.IH [OF this Cons.prems(2)] True show ?thesis by simp
  next
    case False
    with st have "st = (ds, ys @ x # cs, c)"
      by (auto simp: apply_free_default_def free_override_def Let_def
               split: sum.splits option.splits if_splits)
    with rest have "apply_free_defaults_loop e self cs (ds, (ys @ [x]) @ cs, c) = Inr (ds', ov', c')"
      by simp
    moreover have "\<forall>y \<in> set (ys @ [x]). \<not> free_override e self y"
      using Cons.prems(2) False by simp
    ultimately show ?thesis using Cons.IH [of ds "ys @ [x]" c] False by simp
  qed
qed

lemma classification_lists:
  assumes a: "apply_defaults_overrides overrides defaults = Inr (consumed, overrides1, defaults1)"
    and b: "apply_free_defaults e self defaults1 overrides1 = Inr (consumed_free, overrides2, defaults2)"
  obtains kti where
    "consumed = filter (group_override kti) overrides"
    "overrides1 = filter (\<lambda>x. \<not> group_override kti x) overrides"
    "consumed_free = filter (free_override e self) overrides1"
    "overrides2 = filter (\<lambda>x. \<not> free_override e self x) overrides1"
proof -
  from a obtain kti ds' where
    l: "apply_defaults_overrides_loop kti overrides (defaults, [] @ overrides, []) = Inr (ds', overrides1, consumed)"
    by (auto simp: apply_defaults_overrides_def split: sum.splits)
  from apply_defaults_overrides_loop_lists [OF l]
  have 1: "overrides1 = filter (\<lambda>x. \<not> group_override kti x) overrides"
    "consumed = filter (group_override kti) overrides" by simp_all
  from b obtain ds'' where
    m: "apply_free_defaults_loop e self overrides1 (defaults1, [] @ overrides1, []) = Inr (ds'', overrides2, consumed_free)"
    by (auto simp: apply_free_defaults_def split: sum.splits)
  from apply_free_defaults_loop_lists [OF m]
  have 2: "overrides2 = filter (\<lambda>x. \<not> free_override e self x) overrides1"
    "consumed_free = filter (free_override e self) overrides1" by simp_all
  from 1 2 that show ?thesis by blast
qed

lemma mset_two_filters:
  "mset (filter P xs) + (mset (filter Q (filter (\<lambda>x. \<not> P x) xs))
      + mset (filter (\<lambda>x. \<not> Q x) (filter (\<lambda>x. \<not> P x) xs))) = mset xs"
  by (induction xs) auto

lemma override_classification_lists:
  assumes a: "apply_defaults_overrides overrides defaults = Inr (consumed, overrides1, defaults1)"
    and b: "apply_free_defaults e self defaults1 overrides1 = Inr (consumed_free, overrides2, defaults2)"
  shows "mset (consumed @ consumed_free @ remaining_overrides consumed consumed_free overrides2)
           = mset overrides
         \<and> set consumed \<inter> set consumed_free = {}
         \<and> set consumed \<inter> set (remaining_overrides consumed consumed_free overrides2) = {}
         \<and> set consumed_free \<inter> set (remaining_overrides consumed consumed_free overrides2) = {}"
proof -
  from classification_lists [OF a b] obtain kti where
    c: "consumed = filter (group_override kti) overrides"
    and o1: "overrides1 = filter (\<lambda>x. \<not> group_override kti x) overrides"
    and cf: "consumed_free = filter (free_override e self) overrides1"
    and o2: "overrides2 = filter (\<lambda>x. \<not> free_override e self x) overrides1"
    by blast
  have r: "remaining_overrides consumed consumed_free overrides2 = overrides2"
    unfolding remaining_overrides_def Let_def
    by (rule filter_True) (auto simp: c o1 cf o2)
  have m: "mset (consumed @ consumed_free @ overrides2) = mset overrides"
    unfolding c o1 cf o2 by (simp only: mset_append mset_two_filters)
  have d: "set consumed \<inter> set consumed_free = {}"
    "set consumed \<inter> set overrides2 = {}" "set consumed_free \<inter> set overrides2 = {}"
    by (auto simp: c o1 cf o2)
  show ?thesis
    unfolding r using m d by simp
qed

text \<open>
  Claim C1.  When the two phases return, the overrides they consumed and the ones
  that remain are the overrides passed in, up to their order, and no override is in
  two of the three lists.
\<close>

theorem override_classification_partition:
  assumes "apply_defaults_overrides overrides defaults = Inr (consumed, overrides1, defaults1)"
    and "apply_free_defaults e self defaults1 overrides1
           = Inr (consumed_free, overrides2, defaults2)"
  shows "mset (consumed @ consumed_free @ remaining_overrides consumed consumed_free overrides2)
           = mset overrides
         \<and> set consumed \<inter> set consumed_free = {}
         \<and> set consumed \<inter> set (remaining_overrides consumed consumed_free overrides2) = {}
         \<and> set consumed_free \<inter> set (remaining_overrides consumed consumed_free overrides2) = {}"
  using assms by (rule override_classification_lists)

theorem override_classification_partition_witness:
  "apply_defaults_overrides [''model=b'', ''db=mysql'', ''foo=2''] [binding ''model'' ''a'']
     = Inr ([''model=b''], [''db=mysql'', ''foo=2''], [binding ''model'' ''b''])
   \<and> apply_free_defaults example_env example_loader [binding ''model'' ''b'']
         [''db=mysql'', ''foo=2'']
     = Inr ([''db=mysql''], [''foo=2''], [binding ''model'' ''b'', binding ''db'' ''mysql''])
   \<and> mset ([''model=b''] @ [''db=mysql'']
             @ remaining_overrides [''model=b''] [''db=mysql''] [''foo=2''])
     = mset [''model=b'', ''db=mysql'', ''foo=2'']
   \<and> remaining_overrides [''model=b''] [''db=mysql''] [''foo=2''] = [''foo=2'']"
proof -
  have h1: "apply_defaults_overrides [''model=b'', ''db=mysql'', ''foo=2'']
              [binding ''model'' ''a'']
            = Inr ([''model=b''], [''db=mysql'', ''foo=2''], [binding ''model'' ''b''])"
    by code_simp
  have h2: "apply_free_defaults example_env example_loader [binding ''model'' ''b'']
              [''db=mysql'', ''foo=2'']
            = Inr ([''db=mysql''], [''foo=2''],
                   [binding ''model'' ''b'', binding ''db'' ''mysql''])"
    by code_simp
  have r: "remaining_overrides [''model=b''] [''db=mysql''] [''foo=2''] = [''foo=2'']"
    by code_simp
  show ?thesis
    using h1 h2 r override_classification_partition [OF h1 h2] by simp
qed

section \<open>Properties of the search path and of the loading of documents\<close>

lemma find_config_loop_first_hit:
  assumes "\<forall>q \<in> set earlier. probe_under e q fname = Inr False"
    and "probe_under e sp fname = Inr True"
  shows "find_config_loop e (earlier @ sp # later) fname = Inr (Some sp)"
  using assms by (induction earlier) (auto simp: probe_under_def split: prod.splits)

lemma startswith_length: "startswith s prefix \<Longrightarrow> length prefix \<le> length s"
  by (metis startswith_def length_take min.cobounded1 min_def nat_le_linear)

lemma load_config_impl_hit:
  assumes f: "find_config e self fname = Inr (Some sp)"
    and p: "probe_under e sp fname = Inr True"
    and r: "read_under e sp fname = Inr (DictConfig f kvs)"
  shows "load_config_impl e self fname True =
           (Inr (Some (DictConfig f kvs)), record_trace self (hit fname sp))"
proof (cases "startswith (path sp) ''pkg://''")
  case True
  then have "length ''pkg://'' \<le> length (path sp)" by (rule startswith_length)
  then have "drop (length ''pkg://'') (path sp @ ''/'' @ fname)
               = drop (length ''pkg://'') (path sp) @ ''/'' @ fname"
    by simp
  then show ?thesis
    using f r True
    by (simp add: load_config_impl_def read_under_def loaded_document_def hit_def
          split: prod.splits)
next
  case False
  then have "os_path_exists e (path sp @ ''/'' @ fname)"
    using p by (simp add: probe_under_def split_path_def exists_impl_def Let_def)
  then show ?thesis
    using f r False
    by (simp add: load_config_impl_def read_under_def loaded_document_def hit_def)
qed

lemma search_path_first_hit_lemma:
  assumes "config_search_path self = earlier @ sp # later"
    and "\<forall>q \<in> set earlier. probe_under e q fname = Inr False"
    and "probe_under e sp fname = Inr True"
    and "read_under e sp fname = Inr (DictConfig f kvs)"
  shows "find_config e self fname = Inr (Some sp)
         \<and> load_config_impl e self fname True =
             (Inr (Some (DictConfig f kvs)), record_trace self (hit fname sp))"
proof -
  have "find_config e self fname = Inr (Some sp)"
    using assms(1) find_config_loop_first_hit [OF assms(2,3)] by (simp add: find_config_def)
  then show ?thesis using load_config_impl_hit assms(3,4) by simp
qed

lemma package_probe_lemma:
  assumes "split_path (path sp) = (True, p)"
    and "split_module_and_resource (p @ ''/'' @ fname) = (m, r)"
  shows "(resource_exists e m r = RaisesImportError \<longrightarrow>
            exists_impl e True (p @ ''/'' @ fname) = Inr False
            \<and> find_config_loop e (sp # rest) fname = find_config_loop e rest fname)
         \<and> (resource_exists e m r = RaisesNotImplementedError \<longrightarrow>
            exists_impl e True (p @ ''/'' @ fname) =
              Inl (NotImplementedError
                     (''Unable to load '' @ m @ ''/'' @ r @ '', are you missing an __init__.py?''))
            \<and> find_config_loop e (sp # rest) fname =
              Inl (NotImplementedError
                     (''Unable to load '' @ m @ ''/'' @ r @ '', are you missing an __init__.py?'')))"
  using assms by (simp add: exists_impl_def)

lemma optional_missing_lemma:
  assumes o: "map_of kvs ''optional'' = Some (Scalar (PBool True))"
    and k: "filter (\<lambda>kv. fst kv \<noteq> ''optional'') kvs = (family, Scalar (PStr name)) # rest"
    and s: "\<not> contains name ''_SKIP_''"
    and n: "find_config e self (document_name family (get_filename name)) = Inr None"
  shows "merge_default e lib self merged_cfg (DictConfig f kvs) =
           (Inr merged_cfg,
            record_trace self (miss (document_name family (get_filename name))))
         \<and> merge_defaults e lib self merged_cfg (DictConfig f kvs # def_list) =
             merge_defaults e lib
               (record_trace self (miss (document_name family (get_filename name))))
               merged_cfg def_list"
proof -
  have l: "load_config_impl e self (document_name family (get_filename name)) True =
             (Inr None, record_trace self (miss (document_name family (get_filename name))))"
    using n by (simp add: load_config_impl_def miss_def)
  have m: "merge_config e lib self merged_cfg family (get_filename name) False =
             (Inr merged_cfg, record_trace self (miss (document_name family (get_filename name))))"
    using l by (simp add: merge_config_def document_name_def Let_def)
  have d: "merge_default e lib self merged_cfg (DictConfig f kvs) =
           (Inr merged_cfg,
            record_trace self (miss (document_name family (get_filename name))))"
    using o k s m by (simp add: merge_default_def name_to_load_def truthy_def)
  then show ?thesis by simp
qed

text \<open>
  Claim C5.  When a document exists under an entry of the search path and under no
  entry before it, \<^verbatim>\<open>_find_config\<close> returns that entry, whatever the entries after
  it hold, and \<^verbatim>\<open>_load_config_impl\<close> returns the document read from the location of
  that entry and leaves the loader with one more record at the end of its load
  history, which holds the name of the document and the path and the provider of that
  entry.
\<close>

theorem search_path_first_hit:
  assumes "config_search_path self = earlier @ sp # later"
    and "\<forall>q \<in> set earlier. probe_under e q fname = Inr False"
    and "probe_under e sp fname = Inr True"
    and "read_under e sp fname = Inr (DictConfig f kvs)"
  shows "find_config e self fname = Inr (Some sp)
         \<and> load_config_impl e self fname True =
             (Inr (Some (DictConfig f kvs)),
              self\<lparr>all_config_checked :=
                     all_config_checked self
                     @ [\<lparr>filename = fname, trace_path = Some (path sp),
                         trace_provider = Some (provider sp)\<rparr>]\<rparr>)
         \<and> get_load_history (snd (load_config_impl e self fname True)) =
             get_load_history self @ [hit fname sp]"
  using search_path_first_hit_lemma [OF assms]
  by (simp add: record_trace_def hit_def get_load_history_def)

theorem search_path_first_hit_witness:
  "probe_under example_env \<lparr>provider = ''main'', path = ''conf''\<rparr> ''model/a.yaml'' = Inr True
   \<and> probe_under example_env \<lparr>provider = ''plugin'', path = ''extra''\<rparr> ''model/a.yaml''
       = Inr True
   \<and> find_config example_env example_loader ''model/a.yaml''
       = Inr (Some \<lparr>provider = ''main'', path = ''conf''\<rparr>)
   \<and> load_config_impl example_env example_loader ''model/a.yaml'' True
       = (Inr (Some (DictConfig None [(''layers'', Scalar (PInt 2))])),
          example_loader
            \<lparr>all_config_checked :=
               [\<lparr>filename = ''model/a.yaml'', trace_path = Some ''conf'',
                 trace_provider = Some ''main''\<rparr>]\<rparr>)
   \<and> get_load_history
         (snd (load_config_impl example_env example_loader ''model/a.yaml'' True))
       = [\<lparr>filename = ''model/a.yaml'', trace_path = Some ''conf'',
           trace_provider = Some ''main''\<rparr>]"
proof -
  let ?hydra = "\<lparr>provider = ''hydra'', path = ''pkg://hydra.conf''\<rparr>"
  let ?main = "\<lparr>provider = ''main'', path = ''conf''\<rparr>"
  let ?plugin = "\<lparr>provider = ''plugin'', path = ''extra''\<rparr>"
  have h0: "all_config_checked example_loader = []"
    by (simp add: example_loader_def init_def)
  have h1: "config_search_path example_loader = [?hydra] @ ?main # [?plugin]"
    by (simp add: example_loader_def init_def example_search_path_def)
  have h2: "\<forall>q \<in> set [?hydra]. probe_under example_env q ''model/a.yaml'' = Inr False"
    by (simp add: probe_under_def split_path_def startswith_def exists_impl_def
          split_module_and_resource_def example_env_def)
  have h3: "probe_under example_env ?main ''model/a.yaml'' = Inr True"
    by code_simp
  have h4: "read_under example_env ?main ''model/a.yaml''
              = Inr (DictConfig None [(''layers'', Scalar (PInt 2))])"
    by code_simp
  have h5: "probe_under example_env ?plugin ''model/a.yaml'' = Inr True"
    by code_simp
  show ?thesis
    using h3 h5 search_path_first_hit [OF h1 h2 h3 h4]
    by (simp add: h0 hit_def get_load_history_def)
qed

text \<open>
  Claim C9.  For a package location, the probe of a module that cannot be imported
  answers that the file is not there, and the search goes on with the next entry; the
  probe of a package that gives \<^verbatim>\<open>NotImplementedError\<close> raises that error with a
  message that asks for the missing \<^verbatim>\<open>__init__.py\<close>, and the search ends with it.
\<close>

theorem package_probe_outcomes:
  assumes "split_path (path sp) = (True, p)"
    and "split_module_and_resource (p @ ''/'' @ fname) = (m, r)"
  shows "(resource_exists e m r = RaisesImportError \<longrightarrow>
            exists_impl e True (p @ ''/'' @ fname) = Inr False
            \<and> find_config_loop e (sp # rest) fname = find_config_loop e rest fname)
         \<and> (resource_exists e m r = RaisesNotImplementedError \<longrightarrow>
            exists_impl e True (p @ ''/'' @ fname) =
              Inl (NotImplementedError
                     (''Unable to load '' @ m @ ''/'' @ r @ '', are you missing an __init__.py?''))
            \<and> find_config_loop e (sp # rest) fname =
              Inl (NotImplementedError
                     (''Unable to load '' @ m @ ''/'' @ r @ '', are you missing an __init__.py?'')))"
  using assms by (rule package_probe_lemma)

theorem package_probe_outcomes_witness:
  "find_config_loop example_env
     [\<lparr>provider = ''gone'', path = ''pkg://gone.conf''\<rparr>,
      \<lparr>provider = ''main'', path = ''conf''\<rparr>] ''config.yaml''
     = Inr (Some \<lparr>provider = ''main'', path = ''conf''\<rparr>)
   \<and> find_config_loop (example_env\<lparr>resource_exists := \<lambda>m r. RaisesNotImplementedError\<rparr>)
       [\<lparr>provider = ''gone'', path = ''pkg://gone.conf''\<rparr>,
        \<lparr>provider = ''main'', path = ''conf''\<rparr>] ''config.yaml''
     = Inl (NotImplementedError
              ''Unable to load gone.conf/config.yaml, are you missing an __init__.py?'')"
proof -
  let ?gone = "\<lparr>provider = ''gone'', path = ''pkg://gone.conf''\<rparr>"
  let ?main = "\<lparr>provider = ''main'', path = ''conf''\<rparr>"
  let ?env = "example_env\<lparr>resource_exists := \<lambda>m r. RaisesNotImplementedError\<rparr>"
  have h1: "split_path (path ?gone) = (True, ''gone.conf'')"
    by (simp add: split_path_def startswith_def)
  have h2: "split_module_and_resource (''gone.conf'' @ ''/'' @ ''config.yaml'')
              = (''gone.conf'', ''config.yaml'')"
    by (simp add: split_module_and_resource_def)
  have a: "resource_exists example_env ''gone.conf'' ''config.yaml'' = RaisesImportError"
    by (simp add: example_env_def)
  have b: "resource_exists ?env ''gone.conf'' ''config.yaml'' = RaisesNotImplementedError"
    by simp
  have c: "find_config_loop example_env [?main] ''config.yaml'' = Inr (Some ?main)"
    by code_simp
  from package_probe_outcomes [OF h1 h2, of example_env "[?main]"] a c
  have 1: "find_config_loop example_env [?gone, ?main] ''config.yaml'' = Inr (Some ?main)"
    by simp
  from package_probe_outcomes [OF h1 h2, of ?env "[?main]"] b
  have 2: "find_config_loop ?env [?gone, ?main] ''config.yaml''
             = Inl (NotImplementedError
                      ''Unable to load gone.conf/config.yaml, are you missing an __init__.py?'')"
    by simp
  from 1 2 show ?thesis by simp
qed

text \<open>
  Claim C7.  A defaults entry with \<^verbatim>\<open>optional: true\<close> whose document is found
  under no entry of the search path leaves the merged configuration as it is, raises
  nothing, records the miss, and the loop goes on with the entries that follow.
\<close>

theorem optional_missing_default_is_skipped:
  assumes "map_of kvs ''optional'' = Some (Scalar (PBool True))"
    and "filter (\<lambda>kv. fst kv \<noteq> ''optional'') kvs = (family, Scalar (PStr name)) # rest"
    and "\<not> contains name ''_SKIP_''"
    and "find_config e self (document_name family (get_filename name)) = Inr None"
  shows "merge_default e lib self merged_cfg (DictConfig f kvs) =
           (Inr merged_cfg,
            record_trace self (miss (document_name family (get_filename name))))
         \<and> merge_defaults e lib self merged_cfg (DictConfig f kvs # def_list) =
             merge_defaults e lib
               (record_trace self (miss (document_name family (get_filename name))))
               merged_cfg def_list"
  using assms by (rule optional_missing_lemma)

theorem optional_missing_default_is_skipped_witness:
  "merge_default example_env example_library example_loader example_hydra_yaml
     (optional_binding ''model'' ''nothere'')
     = (Inr example_hydra_yaml, record_trace example_loader (miss ''model/nothere.yaml''))
   \<and> merge_defaults example_env example_library example_loader example_hydra_yaml
       [optional_binding ''model'' ''nothere'', binding ''model'' ''b'']
     = merge_defaults example_env example_library
         (record_trace example_loader (miss ''model/nothere.yaml'')) example_hydra_yaml
         [binding ''model'' ''b'']"
proof -
  let ?kvs = "[(''model'', str ''nothere''), (''optional'', Scalar (PBool True))]"
  have h1: "map_of ?kvs ''optional'' = Some (Scalar (PBool True))"
    by simp
  have h2: "filter (\<lambda>kv. fst kv \<noteq> ''optional'') ?kvs
              = (''model'', Scalar (PStr ''nothere'')) # []"
    by (simp add: str_def)
  have h3: "\<not> contains ''nothere'' ''_SKIP_''"
    by code_simp
  have n: "document_name ''model'' (get_filename ''nothere'') = ''model/nothere.yaml''"
    by code_simp
  have h4: "find_config example_env example_loader
              (document_name ''model'' (get_filename ''nothere'')) = Inr None"
    unfolding n by code_simp
  show ?thesis
    using optional_missing_default_is_skipped [OF h1 h2 h3 h4, of example_library
        example_hydra_yaml None "[binding ''model'' ''b'']"]
    by (simp add: n optional_binding_def)
qed

section \<open>Properties of the load history\<close>

lemma search_path_prepend [simp]: "config_search_path (prepend t self) = config_search_path self"
  by (simp add: prepend_def)

lemma default_strict_prepend [simp]: "default_strict (prepend t self) = default_strict self"
  by (simp add: prepend_def)

lemma find_config_prepend [simp]: "find_config e (prepend t self) n = find_config e self n"
  by (simp add: find_config_def)

lemma exists_in_search_path_prepend [simp]:
  "exists_in_search_path e (prepend t self) n = exists_in_search_path e self n"
  by (simp add: exists_in_search_path_def)

lemma get_group_options_prepend [simp]:
  "get_group_options e (prepend t self) g k = get_group_options e self g k"
  by (simp add: get_group_options_def)

lemma record_trace_prepend [simp]:
  "record_trace (prepend t self) x = prepend t (record_trace self x)"
  by (simp add: record_trace_def prepend_def)

lemma search_path_message_prepend [simp]:
  "search_path_message (prepend t self) n = search_path_message self n"
  by (simp add: search_path_message_def)

lemma apply_free_default_prepend [simp]:
  "apply_free_default e (prepend t self) x st = apply_free_default e self x st"
  by (simp add: apply_free_default_def cong: sum.case_cong prod.case_cong)

lemma apply_free_defaults_loop_prepend [simp]:
  "apply_free_defaults_loop e (prepend t self) xs st = apply_free_defaults_loop e self xs st"
  by (induction xs arbitrary: st) (simp_all cong: sum.case_cong)

lemma apply_free_defaults_prepend [simp]:
  "apply_free_defaults e (prepend t self) ds xs = apply_free_defaults e self ds xs"
  by (simp add: apply_free_defaults_def)

lemma compose_defaults_prepend [simp]:
  "compose_defaults e (prepend t self) h j cf ov = compose_defaults e self h j cf ov"
  by (simp add: compose_defaults_def cong: sum.case_cong prod.case_cong)

lemma loaded_document_prepend:
  "loaded_document (prepend t self) n sp rl d = apsnd (prepend t) (loaded_document self n sp rl d)"
  by (simp add: loaded_document_def Let_def split: node.splits)

lemma load_config_impl_prepend:
  "load_config_impl e (prepend t self) n rl = apsnd (prepend t) (load_config_impl e self n rl)"
  by (simp add: load_config_impl_def loaded_document_prepend Let_def
        split: sum.splits option.splits prod.splits)

lemma merge_config_prepend:
  "merge_config e lib (prepend t self) c fam n req
     = apsnd (prepend t) (merge_config e lib self c fam n req)"
proof -
  obtain r s where l: "load_config_impl e self (if fam \<noteq> [] then fam @ ''/'' @ n else n) True = (r, s)"
    by fastforce
  then have "load_config_impl e (prepend t self) (if fam \<noteq> [] then fam @ ''/'' @ n else n) True
               = (r, prepend t s)"
    by (simp add: load_config_impl_prepend)
  with l show ?thesis
    by (simp add: merge_config_def Let_def split: sum.splits option.splits node.splits)
qed

lemma merge_default_prepend:
  "merge_default e lib (prepend t self) c d = apsnd (prepend t) (merge_default e lib self c d)"
  by (simp add: merge_default_def merge_config_prepend Let_def
        split: node.splits scalar.splits list.splits sum.splits option.splits prod.splits)

lemma merge_defaults_prepend:
  "merge_defaults e lib (prepend t self) c ds = apsnd (prepend t) (merge_defaults e lib self c ds)"
proof (induction ds arbitrary: self c)
  case Nil
  then show ?case by simp
next
  case (Cons d ds)
  obtain r s where m: "merge_default e lib self c d = (r, s)" by fastforce
  then have "merge_default e lib (prepend t self) c d = (r, prepend t s)"
    by (simp add: merge_default_prepend)
  with m Cons.IH show ?case by (simp split: sum.splits)
qed

lemma merge_defaults_impl_prepend:
  "merge_defaults_impl e lib (prepend t self) c ds k
     = apsnd (prepend t) (merge_defaults_impl e lib self c ds k)"
proof -
  obtain r s where m: "merge_defaults e lib self c (take k ds) = (r, s)" by fastforce
  then have m': "merge_defaults e lib (prepend t self) c (take k ds) = (r, prepend t s)"
    by (simp add: merge_defaults_prepend)
  show ?thesis
  proof (cases r)
    case (Inl err)
    with m m' show ?thesis by (simp add: merge_defaults_impl_def)
  next
    case (Inr c1)
    obtain r2 s2 where n: "merge_defaults e lib s c1 (drop k ds) = (r2, s2)" by fastforce
    then have "merge_defaults e lib (prepend t s) c1 (drop k ds) = (r2, prepend t s2)"
      by (simp add: merge_defaults_prepend)
    with m m' n Inr show ?thesis
      by (simp add: merge_defaults_impl_def split: sum.splits node.splits)
  qed
qed

lemma create_cfg_prepend:
  "create_cfg e (prepend t self) n rl = apsnd (prepend t) (create_cfg e self n rl)"
proof (cases n)
  case None
  then show ?thesis by (simp add: create_cfg_def split: sum.splits)
next
  case (Some fname)
  obtain r s where l: "load_config_impl e self fname rl = (r, s)" by fastforce
  then have "load_config_impl e (prepend t self) fname rl = (r, prepend t s)"
    by (simp add: load_config_impl_prepend)
  with l Some show ?thesis
    by (simp add: create_cfg_def split: sum.splits option.splits)
qed

lemma load_documents_prepend:
  "load_documents e (prepend t self) cf = apsnd (prepend t) (load_documents e self cf)"
proof -
  obtain r s where c: "create_cfg e self (Some ''hydra.yaml'') True = (r, s)" by fastforce
  then have c': "create_cfg e (prepend t self) (Some ''hydra.yaml'') True = (r, prepend t s)"
    by (simp add: create_cfg_prepend)
  obtain r2 s2 where d: "create_cfg e s cf False = (r2, s2)" by fastforce
  then have d': "create_cfg e (prepend t s) cf False = (r2, prepend t s2)"
    by (simp add: create_cfg_prepend)
  from c c' d d' show ?thesis
    by (simp add: load_documents_def split: sum.splits option.splits)
qed

lemma load_configuration_prepend:
  "load_configuration e lib (prepend t self) cf ov st
     = apsnd (prepend t) (load_configuration e lib self cf ov st)"
proof -
  obtain r s where l: "load_documents e self cf = (r, s)" by fastforce
  then have l': "load_documents e (prepend t self) cf = (r, prepend t s)"
    by (simp add: load_documents_prepend)
  show ?thesis
  proof (cases r)
    case (Inl err)
    with l l' show ?thesis by (simp add: load_configuration_def)
  next
    case (Inr docs)
    obtain h j where docs: "docs = (h, j)" by fastforce
    show ?thesis
    proof (cases "compose_defaults e s h j cf ov")
      case (Inl err)
      with l l' Inr docs show ?thesis by (simp add: load_configuration_def)
    next
      case cd: (Inr q)
      obtain sa ds c1 c2 o2 where q: "q = (sa, ds, c1, c2, o2)" by (cases q) auto
      obtain r2 s2 where m: "merge_defaults_impl e lib s (with_defaults h ds) ds sa = (r2, s2)"
        by fastforce
      then have "merge_defaults_impl e lib (prepend t s) (with_defaults h ds) ds sa
                   = (r2, prepend t s2)"
        by (simp add: merge_defaults_impl_prepend)
      moreover have "(case st of None \<Rightarrow> default_strict (prepend t self) | Some b \<Rightarrow> Some b)
                       = (case st of None \<Rightarrow> default_strict self | Some b \<Rightarrow> Some b)"
        by (simp split: option.splits)
      ultimately show ?thesis
        using l l' Inr docs cd q m
        by (simp add: load_configuration_def Let_def split: sum.splits)
    qed
  qed
qed

lemma prepend_init:
  "prepend (all_config_checked self) (init (config_search_path self) (default_strict self)) = self"
  by (simp add: prepend_def init_def)

lemma load_config_impl_records:
  "(\<forall>doc. fst (load_config_impl e self fname True) = Inr (Some doc) \<longrightarrow>
      (\<exists>sp. find_config e self fname = Inr (Some sp)
         \<and> all_config_checked (snd (load_config_impl e self fname True))
             = all_config_checked self @ [hit fname sp]))
   \<and> (fst (load_config_impl e self fname True) = Inr None \<longrightarrow>
        find_config e self fname = Inr None
        \<and> all_config_checked (snd (load_config_impl e self fname True))
            = all_config_checked self @ [miss fname])
   \<and> snd (load_config_impl e self fname False) = self"
  by (auto simp: load_config_impl_def loaded_document_def record_trace_def hit_def miss_def
        Let_def split: sum.splits option.splits prod.splits node.splits if_splits)

lemma create_cfg_unrecorded: "snd (create_cfg e self cf False) = self"
proof (cases cf)
  case None
  then show ?thesis by (simp add: create_cfg_def split: sum.splits)
next
  case (Some fname)
  obtain r s where l: "load_config_impl e self fname False = (r, s)" by fastforce
  with load_config_impl_records [of e self fname] have "s = self" by simp
  with l Some show ?thesis
    by (simp add: create_cfg_def split: sum.splits option.splits)
qed

lemma create_cfg_recorded:
  assumes "create_cfg e self (Some fname) True = (Inr c, s)"
  shows "\<exists>sp. find_config e self fname = Inr (Some sp)
           \<and> all_config_checked s = all_config_checked self @ [hit fname sp]"
proof -
  obtain r s1 where l: "load_config_impl e self fname True = (r, s1)" by fastforce
  with assms obtain doc where r: "r = Inr (Some doc)" and s: "s = s1"
    by (auto simp: create_cfg_def split: sum.splits option.splits if_splits)
  with l load_config_impl_records [of e self fname] show ?thesis by auto
qed

lemma load_documents_records:
  assumes "load_documents e self cf = (Inr docs, s)"
  shows "\<exists>sp. find_config e self ''hydra.yaml'' = Inr (Some sp)
           \<and> all_config_checked s = all_config_checked self @ [hit ''hydra.yaml'' sp]"
proof -
  obtain r1 s1 where c: "create_cfg e self (Some ''hydra.yaml'') True = (r1, s1)" by fastforce
  obtain r2 s2 where d: "create_cfg e s1 cf False = (r2, s2)" by fastforce
  from d create_cfg_unrecorded [of e s1 cf] have s2: "s2 = s1" by simp
  from assms c d obtain h where h: "r1 = Inr h" and "s = s2"
    by (auto simp: load_documents_def split: sum.splits if_splits)
  with c s2 create_cfg_recorded [of e self "''hydra.yaml''" h s1] show ?thesis by simp
qed

lemma merge_defaults_impl_appends:
  "\<exists>r. all_config_checked (snd (merge_defaults_impl e lib s c ds k)) = all_config_checked s @ r"
proof -
  have "merge_defaults_impl e lib (prepend (all_config_checked s) (init (config_search_path s) (default_strict s))) c ds k
          = apsnd (prepend (all_config_checked s))
              (merge_defaults_impl e lib (init (config_search_path s) (default_strict s)) c ds k)"
    by (rule merge_defaults_impl_prepend)
  then have "merge_defaults_impl e lib s c ds k
          = apsnd (prepend (all_config_checked s))
              (merge_defaults_impl e lib (init (config_search_path s) (default_strict s)) c ds k)"
    by (simp only: prepend_init)
  then show ?thesis
    by (cases "merge_defaults_impl e lib (init (config_search_path s) (default_strict s)) c ds k")
       (simp add: prepend_def)
qed

lemma load_configuration_records:
  assumes "fst (load_configuration e lib self cf ov st) = Inr cfg"
  shows "\<exists>sp rest. find_config e self ''hydra.yaml'' = Inr (Some sp)
           \<and> all_config_checked (snd (load_configuration e lib self cf ov st))
               = all_config_checked self @ hit ''hydra.yaml'' sp # rest"
proof -
  obtain r s where l: "load_documents e self cf = (r, s)" by fastforce
  with assms obtain h j where r: "r = Inr (h, j)"
    by (cases r) (auto simp: load_configuration_def)
  from l r load_documents_records obtain sp where
    sp: "find_config e self ''hydra.yaml'' = Inr (Some sp)"
    and s: "all_config_checked s = all_config_checked self @ [hit ''hydra.yaml'' sp]"
    by blast
  from assms l r obtain sa ds c1 c2 o2 where
    cd: "compose_defaults e s h j cf ov = Inr (sa, ds, c1, c2, o2)"
    by (cases "compose_defaults e s h j cf ov") (auto simp: load_configuration_def)
  obtain r2 s2 where m: "merge_defaults_impl e lib s (with_defaults h ds) ds sa = (r2, s2)"
    by fastforce
  from merge_defaults_impl_appends [of e lib s "with_defaults h ds" ds sa] m
  obtain rest where rest: "all_config_checked s2 = all_config_checked s @ rest" by auto
  from assms l r cd m have "snd (load_configuration e lib self cf ov st) = s2"
    by (auto simp: load_configuration_def Let_def split: sum.splits)
  with sp s rest show ?thesis by simp
qed

lemma load_history_lemma:
  "get_load_history (snd (load_configuration e lib self cf ov st))
     = get_load_history self
       @ get_load_history
           (snd (load_configuration e lib
                   (init (config_search_path self) (default_strict self)) cf ov st))
   \<and> fst (load_configuration e lib self cf ov st)
     = fst (load_configuration e lib
              (init (config_search_path self) (default_strict self)) cf ov st)"
proof -
  have "load_configuration e lib
          (prepend (all_config_checked self)
             (init (config_search_path self) (default_strict self))) cf ov st
          = apsnd (prepend (all_config_checked self))
              (load_configuration e lib
                 (init (config_search_path self) (default_strict self)) cf ov st)"
    by (rule load_configuration_prepend)
  then have "load_configuration e lib self cf ov st
          = apsnd (prepend (all_config_checked self))
              (load_configuration e lib
                 (init (config_search_path self) (default_strict self)) cf ov st)"
    by (simp only: prepend_init)
  then show ?thesis
    by (cases "load_configuration e lib
                 (init (config_search_path self) (default_strict self)) cf ov st")
       (simp add: get_load_history_def prepend_def)
qed

text \<open>
  Claim C8, as the code has it.  The load history belongs to the loader and not to one
  call.  \<^verbatim>\<open>__init__\<close> creates it empty and nothing resets it: after a call of
  \<^verbatim>\<open>load_configuration\<close>, whether it returned or raised, the history is the history
  before the call followed by the records that the same call leaves on a loader just
  created with the same search path and the same default strict flag, and the outcome
  of the call is the outcome on that loader.  When the call returns, its records begin
  with the one of \<^verbatim>\<open>hydra.yaml\<close> and the entry it was found under.  The records are
  those of \<^verbatim>\<open>_load_config_impl\<close>: a call of it that is asked to record and returns a
  document appends one record with the name of the document and the path and provider
  of the entry it was found under; one that returns \<^verbatim>\<open>None\<close> appends one record with
  the name alone; a call that is not asked to record leaves the loader as it is.
\<close>

theorem load_history_accumulates:
  "get_load_history (init search_path strict) = []
   \<and> get_load_history (snd (load_configuration e lib self cf ov st))
       = get_load_history self
         @ get_load_history
             (snd (load_configuration e lib
                     (init (config_search_path self) (default_strict self)) cf ov st))
   \<and> fst (load_configuration e lib self cf ov st)
       = fst (load_configuration e lib
                (init (config_search_path self) (default_strict self)) cf ov st)
   \<and> (\<forall>cfg. fst (load_configuration e lib self cf ov st) = Inr cfg \<longrightarrow>
         (\<exists>sp rest. find_config e self ''hydra.yaml'' = Inr (Some sp)
            \<and> get_load_history (snd (load_configuration e lib self cf ov st))
                = get_load_history self @ hit ''hydra.yaml'' sp # rest))
   \<and> (\<forall>doc. fst (load_config_impl e self fname True) = Inr (Some doc) \<longrightarrow>
         (\<exists>sp. find_config e self fname = Inr (Some sp)
            \<and> get_load_history (snd (load_config_impl e self fname True))
                = get_load_history self @ [hit fname sp]))
   \<and> (fst (load_config_impl e self fname True) = Inr None \<longrightarrow>
         get_load_history (snd (load_config_impl e self fname True))
           = get_load_history self @ [miss fname])
   \<and> snd (load_config_impl e self fname False) = self"
proof -
  have 1: "get_load_history (init search_path strict) = []"
    by (simp add: get_load_history_def init_def)
  note 2 = load_history_lemma [of e lib self cf ov st]
  have 3: "\<forall>cfg. fst (load_configuration e lib self cf ov st) = Inr cfg \<longrightarrow>
         (\<exists>sp rest. find_config e self ''hydra.yaml'' = Inr (Some sp)
            \<and> get_load_history (snd (load_configuration e lib self cf ov st))
                = get_load_history self @ hit ''hydra.yaml'' sp # rest)"
    using load_configuration_records [of e lib self cf ov st]
    by (simp add: get_load_history_def)
  note 4 = load_config_impl_records [of e self fname]
  from 1 2 3 4 show ?thesis by (simp add: get_load_history_def)
qed


theorem load_history_accumulates_witness:
  "map filename (get_load_history example_loader_used)
     = [''hydra.yaml'', ''config.yaml'', ''model/a.yaml'']
   \<and> \<not> isl (fst (load_configuration example_env example_library example_loader_used
                     (Some ''config.yaml'') [''model=b''] None))
   \<and> get_load_history
         (snd (load_configuration example_env example_library example_loader_used
                 (Some ''config.yaml'') [''model=b''] None))
       = get_load_history example_loader_used
         @ [hit ''hydra.yaml'' \<lparr>provider = ''hydra'', path = ''pkg://hydra.conf''\<rparr>,
            hit ''config.yaml'' \<lparr>provider = ''main'', path = ''conf''\<rparr>,
            hit ''model/b.yaml'' \<lparr>provider = ''main'', path = ''conf''\<rparr>]
   \<and> get_load_history
         (snd (load_config_impl example_env example_loader_used ''model/a.yaml'' True))
       = get_load_history example_loader_used
         @ [hit ''model/a.yaml'' \<lparr>provider = ''main'', path = ''conf''\<rparr>]
   \<and> get_load_history
         (snd (load_config_impl example_env example_loader_used ''model/none.yaml'' True))
       = get_load_history example_loader_used @ [miss ''model/none.yaml'']
   \<and> snd (load_config_impl example_env example_loader_used ''model/a.yaml'' False)
       = example_loader_used"
proof -
  let ?call = "load_configuration example_env example_library example_loader_used
                 (Some ''config.yaml'') [''model=b''] None"
  let ?fresh = "load_configuration example_env example_library
                  (init (config_search_path example_loader_used)
                     (default_strict example_loader_used))
                  (Some ''config.yaml'') [''model=b''] None"
  have h0: "map filename (get_load_history example_loader_used)
              = [''hydra.yaml'', ''config.yaml'', ''model/a.yaml'']"
    by code_simp
  have h1: "\<not> isl (fst ?call)"
    by code_simp
  have h2: "get_load_history (snd ?fresh)
              = [hit ''hydra.yaml'' \<lparr>provider = ''hydra'', path = ''pkg://hydra.conf''\<rparr>,
                 hit ''config.yaml'' \<lparr>provider = ''main'', path = ''conf''\<rparr>,
                 hit ''model/b.yaml'' \<lparr>provider = ''main'', path = ''conf''\<rparr>]"
    by code_simp
  have h3: "fst (load_config_impl example_env example_loader_used ''model/a.yaml'' True)
              = Inr (Some (DictConfig None [(''layers'', Scalar (PInt 2))]))"
    by code_simp
  have h4: "find_config example_env example_loader_used ''model/a.yaml''
              = Inr (Some \<lparr>provider = ''main'', path = ''conf''\<rparr>)"
    by code_simp
  have h5: "fst (load_config_impl example_env example_loader_used ''model/none.yaml'' True)
              = Inr None"
    by code_simp
  from h1 obtain cfg where h6: "fst ?call = Inr cfg"
    by (cases "fst ?call") auto
  note a = load_history_accumulates
             [of example_search_path None example_env example_library example_loader_used
                "Some ''config.yaml''" "[''model=b'']" None "''model/a.yaml''"]
  note b = load_history_accumulates
             [of example_search_path None example_env example_library example_loader_used
                "Some ''config.yaml''" "[''model=b'']" None "''model/none.yaml''"]
  from a h6 have c1: "\<exists>sp rest. find_config example_env example_loader_used ''hydra.yaml''
                          = Inr (Some sp)
                        \<and> get_load_history (snd ?call)
                            = get_load_history example_loader_used @ hit ''hydra.yaml'' sp # rest"
    by blast
  from a have c2: "get_load_history (snd ?call)
                     = get_load_history example_loader_used @ get_load_history (snd ?fresh)"
    by blast
  from a h3 h4 have c3: "get_load_history
         (snd (load_config_impl example_env example_loader_used ''model/a.yaml'' True))
       = get_load_history example_loader_used
         @ [hit ''model/a.yaml'' \<lparr>provider = ''main'', path = ''conf''\<rparr>]"
    by auto
  from b h5 have c4: "get_load_history
         (snd (load_config_impl example_env example_loader_used ''model/none.yaml'' True))
       = get_load_history example_loader_used @ [miss ''model/none.yaml'']"
    by blast
  from a have c5: "snd (load_config_impl example_env example_loader_used ''model/a.yaml'' False)
       = example_loader_used"
    by blast
  from h0 h1 c2 h2 c3 c4 c5 show ?thesis by simp
qed

text \<open>
  Claim C8 as the spec words it fails on the second call of a loader: after loading
  \<^verbatim>\<open>config.yaml\<close> without overrides and then with \<^verbatim>\<open>model=b\<close>, two calls that
  both return, the history holds the three records of the first call,
  \<^verbatim>\<open>model/a.yaml\<close> among them, before the three of the second, which are the only
  ones after the same call on a new loader.
\<close>

theorem load_history_private_counterexample:
  "\<not> isl (fst (load_configuration example_env example_library example_loader
                  (Some ''config.yaml'') [] None))
   \<and> \<not> isl (fst (load_configuration example_env example_library
                      (snd (load_configuration example_env example_library example_loader
                              (Some ''config.yaml'') [] None))
                      (Some ''config.yaml'') [''model=b''] None))
   \<and> map filename
     (get_load_history
        (snd (load_configuration example_env example_library
                (snd (load_configuration example_env example_library example_loader
                        (Some ''config.yaml'') [] None))
                (Some ''config.yaml'') [''model=b''] None)))
     = [''hydra.yaml'', ''config.yaml'', ''model/a.yaml'',
        ''hydra.yaml'', ''config.yaml'', ''model/b.yaml'']
   \<and> map filename
       (get_load_history
          (snd (load_configuration example_env example_library example_loader
                  (Some ''config.yaml'') [''model=b''] None)))
     = [''hydra.yaml'', ''config.yaml'', ''model/b.yaml'']"
  by code_simp

section \<open>Properties of the strict flags\<close>

lemma map_of_dict_set_same [simp]: "map_of (dict_set kvs k v) k = Some v"
  by (induction kvs) auto

lemma map_of_dict_set_other [simp]: "k' \<noteq> k \<Longrightarrow> map_of (dict_set kvs k v) k' = map_of kvs k'"
  by (induction kvs) auto

lemma keys_map_of: "k \<in> set (map fst kvs) \<longleftrightarrow> map_of kvs k \<noteq> None"
  by (simp add: map_of_eq_None_iff)

lemma in_keys: "map_of kvs k = Some c \<Longrightarrow> k \<in> fst ` set kvs"
  by (force dest: map_of_SomeD)

lemma uniformly_child:
  assumes "uniformly s (DictConfig f kvs)" and "map_of kvs k = Some c"
  shows "uniformly s c"
proof -
  have "(k, c) \<in> set kvs" using assms(2) by (rule map_of_SomeD)
  then have "c \<in> set (map snd kvs)" by force
  then show ?thesis using assms(1) by (auto simp: list_all_iff)
qed

lemma strict_subtree_rejects:
  assumes "uniformly True t" and "is_struct (flag_of t) inh"
    and "first_absent t p = Some k"
  shows "update_path inh t p v = Inl (KeyError k)"
  using assms
proof (induction inh t p v rule: update_path.induct)
  case (1 inherited f kvs k0 v)
  then show ?case
    by (auto simp: flag_of_def split: option.splits dest!: weak_map_of_SomeI)
next
  case (2 inherited f kvs k0 k2 ks v)
  have st: "is_struct f inherited" using "2.prems"(2) by (simp add: flag_of_def)
  show ?case
  proof (cases "map_of kvs k0")
    case None
    then have "k0 \<notin> set (map fst kvs)" by (simp add: map_of_eq_None_iff)
    then show ?thesis using "2.prems"(3) st None by simp
  next
    case (Some c)
    show ?thesis
    proof (cases c)
      case (Scalar a)
      then have k: "k = k2" using "2.prems"(3) Some by simp
      have "update_path True (DictConfig None []) (k2 # ks) v = Inl (KeyError k2)"
        by (cases ks) (simp_all add: is_struct_def)
      then show ?thesis using Some Scalar st k in_keys [OF Some] by simp
    next
      case (ListConfig g xs)
      then show ?thesis using "2.prems"(3) Some by simp
    next
      case (DictConfig g c')
      have u: "uniformly True (DictConfig g c')"
        using uniformly_child [OF "2.prems"(1) Some] DictConfig by simp
      then have s: "is_struct (flag_of (DictConfig g c')) (is_struct f inherited)"
        using st by (auto simp: flag_of_def is_struct_def)
      have a: "first_absent (DictConfig g c') (k2 # ks) = Some k"
        using "2.prems"(3) Some DictConfig by simp
      have "update_path (is_struct f inherited) (DictConfig g c') (k2 # ks) v = Inl (KeyError k)"
        using "2.IH" Some DictConfig u s a by simp
      then show ?thesis using Some DictConfig by simp
    qed
  qed
qed simp_all

lemma fresh_map_creates:
  "p \<noteq> [] \<Longrightarrow>
   \<exists>t'. update_path False (DictConfig None []) p v = Inr t' \<and> lookup_path t' p = Some v"
proof (induction p)
  case Nil
  then show ?case by simp
next
  case (Cons k ks)
  show ?case
  proof (cases ks)
    case Nil
    then show ?thesis by (simp add: is_struct_def)
  next
    case (Cons k2 ks2)
    then obtain t' where "update_path False (DictConfig None []) (k2 # ks2) v = Inr t'"
      and "lookup_path t' (k2 # ks2) = Some v"
      using Cons.IH by auto
    then show ?thesis using Cons by (simp add: is_struct_def)
  qed
qed

lemma open_subtree_creates:
  assumes "uniformly False t" and "\<not> is_struct (flag_of t) inh"
    and "first_absent t p = Some k"
  shows "\<exists>t'. update_path inh t p v = Inr t' \<and> lookup_path t' p = Some v"
  using assms
proof (induction inh t p v rule: update_path.induct)
  case (1 inherited f kvs k0 v)
  then show ?case by (simp add: flag_of_def)
next
  case (2 inherited f kvs k0 k2 ks v)
  have st: "\<not> is_struct f inherited" using "2.prems"(2) by (simp add: flag_of_def)
  have fresh: "\<exists>t'. update_path False (DictConfig None []) (k2 # ks) v = Inr t'
                 \<and> lookup_path t' (k2 # ks) = Some v"
    by (rule fresh_map_creates) simp
  show ?case
  proof (cases "map_of kvs k0")
    case None
    then show ?thesis using fresh st by auto
  next
    case (Some c)
    show ?thesis
    proof (cases c)
      case (Scalar a)
      then show ?thesis using fresh st Some by auto
    next
      case (ListConfig g xs)
      then show ?thesis using "2.prems"(3) Some by simp
    next
      case (DictConfig g c')
      have u: "uniformly False (DictConfig g c')"
        using uniformly_child [OF "2.prems"(1) Some] DictConfig by simp
      then have s: "\<not> is_struct (flag_of (DictConfig g c')) (is_struct f inherited)"
        using st by (auto simp: flag_of_def is_struct_def)
      have a: "first_absent (DictConfig g c') (k2 # ks) = Some k"
        using "2.prems"(3) Some DictConfig by simp
      have "\<exists>t'. update_path (is_struct f inherited) (DictConfig g c') (k2 # ks) v = Inr t'
              \<and> lookup_path t' (k2 # ks) = Some v"
        using "2.IH" Some DictConfig u s a by simp
      then show ?thesis using Some DictConfig by auto
    qed
  qed
qed simp_all

lemma engage_strict_form:
  assumes "engage_strict merged strict = Inr cfg2"
  obtains f kvs h h' where "merged = DictConfig f kvs" "map_of kvs ''hydra'' = Some h"
    "set_struct h (Some True) = Inr h'" "cfg2 = DictConfig strict (dict_set kvs ''hydra'' h')"
proof -
  from assms obtain f kvs where m: "merged = DictConfig f kvs"
    by (cases merged) (auto simp: engage_strict_def split: sum.splits)
  from assms m obtain h' where s: "set_struct (attribute merged ''hydra'') (Some True) = Inr h'"
    and c: "cfg2 = DictConfig strict (dict_set kvs ''hydra'' h')"
    by (auto simp: engage_strict_def set_struct_def split: sum.splits)
  from s m obtain h where "map_of kvs ''hydra'' = Some h" "attribute merged ''hydra'' = h"
    by (cases "map_of kvs ''hydra''") (auto simp: attribute_def set_struct_def)
  with m s c that show ?thesis by metis
qed

lemma list_all_dict_set:
  "list_all P (map snd kvs) \<Longrightarrow> P v \<Longrightarrow> list_all P (map snd (dict_set kvs k v))"
  by (induction kvs) auto

lemma set_struct_uniformly:
  assumes "set_struct h (Some s) = Inr h'" and "uniformly s h"
  shows "uniformly s h'"
  using assms by (cases h) (auto simp: set_struct_def)

lemma set_struct_flag:
  assumes "set_struct h flag = Inr h'"
  shows "flag_of h' = flag"
  using assms by (cases h) (auto simp: set_struct_def flag_of_def)

lemma set_struct_first_absent:
  assumes "set_struct h flag = Inr h'"
  shows "first_absent h' p = first_absent h p"
proof (cases h)
  case (DictConfig f kvs)
  then have h': "h' = DictConfig flag kvs" using assms by (simp add: set_struct_def)
  show ?thesis
  proof (cases p)
    case Nil
    then show ?thesis using DictConfig h' by simp
  next
    case (Cons k ks)
    then show ?thesis using DictConfig h' by (cases ks) simp_all
  qed
qed (use assms in \<open>auto simp: set_struct_def\<close>)

lemma strictness_lemma:
  assumes e: "engage_strict merged strict = Inr cfg2"
    and u: "unflagged merged"
    and a: "first_absent cfg2 (override_path arg) = Some k"
  shows "flag_of cfg2 = strict \<and> flag_of (attribute cfg2 ''hydra'') = Some True
         \<and> (strict = Some True \<or> hd (override_path arg) = ''hydra'' \<longrightarrow>
              dotlist_update lib cfg2 arg = Inl (KeyError k))
         \<and> (strict \<noteq> Some True \<and> hd (override_path arg) \<noteq> ''hydra'' \<longrightarrow>
              (\<exists>cfg3. dotlist_update lib cfg2 arg = Inr cfg3
                 \<and> lookup_path cfg3 (override_path arg) = Some (override_value lib arg)))"
proof -
  from engage_strict_form [OF e] obtain f kvs h h' where
    m: "merged = DictConfig f kvs" and hy: "map_of kvs ''hydra'' = Some h"
    and s: "set_struct h (Some True) = Inr h'"
    and c: "cfg2 = DictConfig strict (dict_set kvs ''hydra'' h')"
    by blast
  let ?kvs2 = "dict_set kvs ''hydra'' h'"
  let ?p = "override_path arg"
  let ?v = "override_value lib arg"
  have d: "dotlist_update lib cfg2 arg = update_path False cfg2 ?p ?v"
    by (simp add: dotlist_update_def override_path_def override_value_def Let_def)
  have ut: "list_all (uniformly True) (map snd kvs)" and uf: "list_all (uniformly False) (map snd kvs)"
    using u m by (simp_all add: unflagged_def)
  have hT: "uniformly True h" and hF: "uniformly False h"
    using uniformly_child [of _ f kvs "''hydra''" h] u m hy by (auto simp: unflagged_def)
  have h'T: "uniformly True h'" using set_struct_uniformly [OF s hT] .
  have h'flag: "flag_of h' = Some True" using set_struct_flag [OF s] .
  have A: "flag_of cfg2 = strict \<and> flag_of (attribute cfg2 ''hydra'') = Some True"
    using c h'flag by (simp add: flag_of_def attribute_def)
  have B: "dotlist_update lib cfg2 arg = Inl (KeyError k)" if "strict = Some True"
  proof -
    have "uniformly True cfg2"
      using c that ut h'T by (simp add: list_all_dict_set)
    moreover have "is_struct (flag_of cfg2) False"
      using c that by (simp add: flag_of_def is_struct_def)
    ultimately show ?thesis using a d strict_subtree_rejects by simp
  qed
  have C: "dotlist_update lib cfg2 arg = Inl (KeyError k)" if "hd ?p = ''hydra''"
  proof -
    from a obtain k0 ks where p: "?p = k0 # ks" by (cases ?p) (auto simp: c)
    with that have k0: "k0 = ''hydra''" by simp
    from a p k0 c obtain k2 ks2 where ks: "ks = k2 # ks2" by (cases ks) auto
    have "\<And>x. h' \<noteq> Scalar x" using s by (cases h) (auto simp: set_struct_def)
    with a p k0 c ks obtain g cs where hd': "h' = DictConfig g cs"
      by (cases h') auto
    have fa: "first_absent h' (k2 # ks2) = Some k"
      using a p k0 c ks hd' by simp
    have "is_struct (flag_of h') (is_struct strict False)"
      using h'flag by (simp add: is_struct_def)
    then have "update_path (is_struct strict False) h' (k2 # ks2) ?v = Inl (KeyError k)"
      using strict_subtree_rejects [OF h'T _ fa] by simp
    then show ?thesis using d p k0 ks c hd' by simp
  qed
  have D: "\<exists>cfg3. dotlist_update lib cfg2 arg = Inr cfg3 \<and> lookup_path cfg3 ?p = Some ?v"
    if ns: "strict \<noteq> Some True" and nh: "hd ?p \<noteq> ''hydra''"
  proof -
    have st: "\<not> is_struct strict False"
      using ns by (cases strict) (auto simp: is_struct_def)
    from a obtain k0 ks where p: "?p = k0 # ks" by (cases ?p) (auto simp: c)
    with nh have k0: "k0 \<noteq> ''hydra''" by simp
    then have mk: "map_of ?kvs2 k0 = map_of kvs k0" by simp
    show ?thesis
    proof (cases ks)
      case Nil
      then show ?thesis using d p c st by simp
    next
      case (Cons k2 ks2)
      have fresh: "\<exists>t'. update_path False (DictConfig None []) (k2 # ks2) ?v = Inr t'
                     \<and> lookup_path t' (k2 # ks2) = Some ?v"
        by (rule fresh_map_creates) simp
      show ?thesis
      proof (cases "map_of kvs k0")
        case None
        then show ?thesis using fresh d p c st Cons mk by auto
      next
        case (Some ch)
        show ?thesis
        proof (cases ch)
          case (Scalar x)
          then show ?thesis using fresh d p c st Cons mk Some by auto
        next
          case (ListConfig g xs)
          then show ?thesis using a p c Cons mk Some by simp
        next
          case (DictConfig g cs)
          have uc: "uniformly False (DictConfig g cs)"
            using uniformly_child [of False f kvs k0 ch] u m Some DictConfig
            by (simp add: unflagged_def)
          then have ns': "\<not> is_struct (flag_of (DictConfig g cs)) False"
            by (auto simp: flag_of_def is_struct_def)
          have fa: "first_absent (DictConfig g cs) (k2 # ks2) = Some k"
            using a p c Cons mk Some DictConfig by simp
          from open_subtree_creates [OF uc ns' fa, of ?v]
          show ?thesis using d p c st Cons mk Some DictConfig by auto
        qed
      qed
    qed
  qed
  from A B C D show ?thesis by blast
qed

text \<open>
  Claim C6, as the code has it.  \<^verbatim>\<open>load_configuration\<close> marks the \<^verbatim>\<open>hydra\<close> subtree
  strict whatever the flag is, and gives the whole document the effective strict flag.
  On a merged tree without flags of its own, an override whose path leaves the tree at
  an absent key raises the strict-mode error for that key when the flag is true, and
  also, whatever the flag is, when the path starts in the \<^verbatim>\<open>hydra\<close> subtree; it
  creates the key when the flag is false or unset and the path starts elsewhere.
\<close>

theorem strictness_contract:
  assumes "engage_strict merged strict = Inr cfg2"
    and "unflagged merged"
    and "first_absent cfg2 (override_path arg) = Some k"
  shows "flag_of cfg2 = strict \<and> flag_of (attribute cfg2 ''hydra'') = Some True
         \<and> (strict = Some True \<or> hd (override_path arg) = ''hydra'' \<longrightarrow>
              dotlist_update lib cfg2 arg = Inl (KeyError k))
         \<and> (strict \<noteq> Some True \<and> hd (override_path arg) \<noteq> ''hydra'' \<longrightarrow>
              (\<exists>cfg3. dotlist_update lib cfg2 arg = Inr cfg3
                 \<and> lookup_path cfg3 (override_path arg) = Some (override_value lib arg)))"
  using assms by (rule strictness_lemma)

theorem strictness_contract_witness:
  "engage_strict (DictConfig None [(''hydra'', DictConfig None []), (''foo'', Scalar (PInt 1))])
     (Some True)
     = Inr (DictConfig (Some True)
              [(''hydra'', DictConfig (Some True) []), (''foo'', Scalar (PInt 1))])
   \<and> dotlist_update example_library
       (DictConfig (Some True)
          [(''hydra'', DictConfig (Some True) []), (''foo'', Scalar (PInt 1))])
       ''does.not.exist=1''
     = Inl (KeyError ''does'')
   \<and> dotlist_update example_library
       (DictConfig (Some False)
          [(''hydra'', DictConfig (Some True) []), (''foo'', Scalar (PInt 1))])
       ''hydra.verbose=1''
     = Inl (KeyError ''verbose'')
   \<and> (\<exists>cfg3. dotlist_update example_library
               (DictConfig (Some False)
                  [(''hydra'', DictConfig (Some True) []), (''foo'', Scalar (PInt 1))])
               ''does.not.exist=1''
             = Inr cfg3
           \<and> lookup_path cfg3 [''does'', ''not'', ''exist''] = Some (Scalar (PStr ''1'')))"
proof -
  let ?m = "DictConfig None [(''hydra'', DictConfig None []), (''foo'', Scalar (PInt 1))]"
  let ?t = "DictConfig (Some True)
              [(''hydra'', DictConfig (Some True) []), (''foo'', Scalar (PInt 1))]"
  let ?f = "DictConfig (Some False)
              [(''hydra'', DictConfig (Some True) []), (''foo'', Scalar (PInt 1))]"
  have et: "engage_strict ?m (Some True) = Inr ?t" by code_simp
  have ef: "engage_strict ?m (Some False) = Inr ?f" by code_simp
  have u: "unflagged ?m" by (simp add: unflagged_def)
  have p1: "override_path ''does.not.exist=1'' = [''does'', ''not'', ''exist'']" by code_simp
  have p2: "override_path ''hydra.verbose=1'' = [''hydra'', ''verbose'']" by code_simp
  have v: "override_value example_library ''does.not.exist=1'' = Scalar (PStr ''1'')"
    by code_simp
  have a1: "first_absent ?t (override_path ''does.not.exist=1'') = Some ''does''"
    unfolding p1 by simp
  have a2: "first_absent ?f (override_path ''hydra.verbose=1'') = Some ''verbose''"
    unfolding p2 by simp
  have a3: "first_absent ?f (override_path ''does.not.exist=1'') = Some ''does''"
    unfolding p1 by simp
  from strictness_contract [OF et u a1, of example_library]
  have 1: "dotlist_update example_library ?t ''does.not.exist=1'' = Inl (KeyError ''does'')"
    by simp
  from strictness_contract [OF ef u a2, of example_library]
  have 2: "dotlist_update example_library ?f ''hydra.verbose=1'' = Inl (KeyError ''verbose'')"
    by (simp add: p2)
  from strictness_contract [OF ef u a3, of example_library]
  have 3: "\<exists>cfg3. dotlist_update example_library ?f ''does.not.exist=1'' = Inr cfg3
             \<and> lookup_path cfg3 [''does'', ''not'', ''exist''] = Some (Scalar (PStr ''1''))"
    by (simp add: p1 v)
  from et 1 2 3 show ?thesis by simp
qed

text \<open>
  Claim C6 as the spec words it fails for a key of the \<^verbatim>\<open>hydra\<close> subtree: with the
  flag false, and with the flag unset, the override \<^verbatim>\<open>hydra.foo=1\<close> of a key that
  the merged tree does not have is rejected, and no key is created.
\<close>

theorem strictness_contract_counterexample:
  "fst (load_configuration example_env example_library example_loader
          (Some ''config.yaml'') [''hydra.foo=1''] (Some False))
     = Inl (KeyError ''foo'')
   \<and> fst (load_configuration example_env example_library example_loader
          (Some ''config.yaml'') [''hydra.foo=1''] None)
     = Inl (KeyError ''foo'')"
  by code_simp

section \<open>Properties of the index map of the overrides\<close>
























section \<open>The sentinel of a sweep\<close>

text \<open>
  Claim C4 says that an override whose value holds a comma never makes
  \<^verbatim>\<open>load_configuration\<close> load a document for its key.  The comment in
  \<^verbatim>\<open>_apply_defaults_overrides\<close> says the same of the code: the default is flagged
  ``to prevent it from being loaded''.  The code does so for an entry that has its group
  as first key, as in \<^verbatim>\<open>config.yaml\<close>: the choice becomes \<^verbatim>\<open>_SKIP_\<close> and only
  \<^verbatim>\<open>hydra.yaml\<close> and \<^verbatim>\<open>config.yaml\<close> are loaded.  It does not for an entry that has
  \<^verbatim>\<open>optional\<close> as first key, as in \<^verbatim>\<open>opt.yaml\<close>: \<^verbatim>\<open>key_to_idx\<close> records the
  entry under \<^verbatim>\<open>optional\<close>, where \<^verbatim>\<open>get_key\<close> of \<^verbatim>\<open>_merge_default_lists\<close> would
  skip that key, so the override \<^verbatim>\<open>model=a,b\<close> is not consumed by
  \<^verbatim>\<open>_apply_defaults_overrides\<close> and the entry is left as it is; the call returns, it
  has loaded \<^verbatim>\<open>model/a.yaml\<close> and merged it, and \<^verbatim>\<open>hydra.overrides.task\<close> holds the
  override.
\<close>

theorem sweep_override_optional_first_loads_document:
  "apply_defaults_overrides [''model=a,b'']
     [str ''opt.yaml'',
      DictConfig None [(''optional'', Scalar (PBool True)), (''model'', str ''a'')]]
     = Inr ([], [''model=a,b''],
            [str ''opt.yaml'',
             DictConfig None [(''optional'', Scalar (PBool True)), (''model'', str ''a'')]])
   \<and> apply_defaults_overrides [''model=a,b'']
       [str ''config.yaml'', DictConfig None [(''model'', str ''a'')]]
     = Inr ([''model=a,b''], [],
            [str ''config.yaml'', DictConfig None [(''model'', str ''_SKIP_'')]])
   \<and> \<not> isl (fst (load_configuration example_env example_library example_loader
                      (Some ''opt.yaml'') [''model=a,b''] None))
   \<and> get_load_history
         (snd (load_configuration example_env example_library example_loader
                 (Some ''opt.yaml'') [''model=a,b''] None))
     = [hit ''hydra.yaml'' \<lparr>provider = ''hydra'', path = ''pkg://hydra.conf''\<rparr>,
        hit ''opt.yaml'' \<lparr>provider = ''main'', path = ''conf''\<rparr>,
        hit ''model/a.yaml'' \<lparr>provider = ''main'', path = ''conf''\<rparr>]
   \<and> (case fst (load_configuration example_env example_library example_loader
                   (Some ''opt.yaml'') [''model=a,b''] None) of
        Inl err \<Rightarrow> None
      | Inr cfg \<Rightarrow> lookup_path cfg [''hydra'', ''overrides'', ''task''])
     = Some (strings [''model=a,b''])
   \<and> (case fst (load_configuration example_env example_library example_loader
                   (Some ''opt.yaml'') [''model=a,b''] None) of
        Inl err \<Rightarrow> None
      | Inr cfg \<Rightarrow> lookup_path cfg [''layers''])
     = Some (Scalar (PInt 2))
   \<and> get_load_history
         (snd (load_configuration example_env example_library example_loader
                 (Some ''config.yaml'') [''model=a,b''] None))
     = [hit ''hydra.yaml'' \<lparr>provider = ''hydra'', path = ''pkg://hydra.conf''\<rparr>,
        hit ''config.yaml'' \<lparr>provider = ''main'', path = ''conf''\<rparr>]"
  by code_simp

end
